theory Spec2Isabelle
  imports Complex_Main
begin

section \<open>JavaScript strings and values\<close>

text \<open>
  A JavaScript string is modelled as a \<^typ>\<open>string\<close>: the sequence of its code units,
  kept to those below 256, which is where the output of the runtime CLI, the names of
  programs and the white space of a listing live.
\<close>

text \<open>
  The code units that \<^verbatim>\<open>String.prototype.trim\<close> strips (ECMAScript WhiteSpace and
  LineTerminator), among the code units below 256: TAB, LF, VT, FF, CR, SP and NBSP.
\<close>

definition is_white_space :: "char \<Rightarrow> bool" where
  "is_white_space c =
     (c = CHR 0x09 \<or> c = CHR 0x0A \<or> c = CHR 0x0B \<or> c = CHR 0x0C \<or> c = CHR 0x0D \<or>
      c = CHR 0x20 \<or> c = CHR 0xA0)"

text \<open>\<^verbatim>\<open>s.trim()\<close>: white space removed from both ends.\<close>

definition trim :: "string \<Rightarrow> string" where
  "trim s = rev (dropWhile is_white_space (rev (dropWhile is_white_space s)))"

text \<open>
  \<^verbatim>\<open>s.split(sep)\<close> for a separator of one code unit. The result is never empty:
  \<^verbatim>\<open>"".split(",")\<close> is \<^verbatim>\<open>[""]\<close>. The first argument of \<open>split_from\<close> is the field
  read so far, reversed.
\<close>

primrec split_from :: "string \<Rightarrow> char \<Rightarrow> string \<Rightarrow> string list" where
  "split_from cur sep [] = [rev cur]"
| "split_from cur sep (c # cs) =
     (if c = sep then rev cur # split_from [] sep cs else split_from (c # cur) sep cs)"

definition js_split :: "char \<Rightarrow> string \<Rightarrow> string list" where
  "js_split sep s = split_from [] sep s"

text \<open>\<^verbatim>\<open>xs.join(sep)\<close> on an array of strings.\<close>

fun join :: "string \<Rightarrow> string list \<Rightarrow> string" where
  "join sep [] = []"
| "join sep [x] = x"
| "join sep (x # y # ys) = x @ sep @ join sep (y # ys)"

text \<open>
  The values the code handles: what \<^verbatim>\<open>JSON.parse\<close> returns, \<^verbatim>\<open>undefined\<close>, and the
  objects the listing builds. An object is the list of its own properties in insertion
  order; \<open>map_of\<close> reads a property. A number is the real it denotes (JSON text
  has no NaN).
\<close>

datatype jsval =
    JUndefined
  | JNull
  | JBool bool
  | JNum real
  | JStr string
  | JArr "jsval list"
  | JObj "(string \<times> jsval) list"

text \<open>ToBoolean, the test of \<^verbatim>\<open>x ? a : b\<close>.\<close>

fun truthy :: "jsval \<Rightarrow> bool" where
  "truthy JUndefined = False"
| "truthy JNull = False"
| "truthy (JBool b) = b"
| "truthy (JNum x) = (x \<noteq> 0)"
| "truthy (JStr s) = (s \<noteq> [])"
| "truthy (JArr xs) = True"
| "truthy (JObj kvs) = True"

text \<open>
  \<^verbatim>\<open>xs[i]\<close> on an array of strings: \<^verbatim>\<open>undefined\<close> out of range.
\<close>

definition at_index :: "string list \<Rightarrow> nat \<Rightarrow> jsval" where
  "at_index xs i = (if i < length xs then JStr (xs ! i) else JUndefined)"

section \<open>Errors, promises and the host\<close>

text \<open>
  What the code throws or rejects with: the \<^verbatim>\<open>GLib.Error\<close> of a process that could not
  be spawned, the one of a failed communication, the \<^verbatim>\<open>Gio.IOErrorEnum\<close> that
  \<^verbatim>\<open>execCommand\<close> builds (code and message), and the TypeError and SyntaxError of the
  JavaScript runtime.
\<close>

datatype js_error =
    GLibSpawnError string
  | GLibIOError string
  | IOErrorEnum int string
  | TypeError
  | SyntaxError

text \<open>The state a promise ends in; \<open>Pending\<close> is a promise that never settles.\<close>

datatype 'a promise = Resolved 'a | Rejected js_error | Pending

text \<open>
  What becomes of one \<^verbatim>\<open>Gio.Subprocess\<close>: \<^verbatim>\<open>proc.init(null)\<close> throws; or the child never
  ends and the callback of \<^verbatim>\<open>communicate_utf8_async\<close> is never called; or
  \<^verbatim>\<open>communicate_utf8_finish\<close> throws; or it returns \<^verbatim>\<open>[ok, stdout, stderr]\<close>, and
  \<^verbatim>\<open>proc.get_exit_status()\<close> is the last component. The flag \<open>ok\<close> and the exit status
  are separate results of Gio and the model relates them in no way.
\<close>

datatype proc_outcome =
    SpawnFails string
  | NeverCompletes
  | CommunicateFails string
  | Communicates bool string string int

text \<open>
  The host the code runs on, as far as the code consults it: the path lookup
  (\<^verbatim>\<open>!!GLib.find_program_in_path(name)\<close>), the outcome of a subprocess by its argv and
  the moment it completes, \<^verbatim>\<open>GLib.spawn_command_line_async\<close> (the message of the error
  it throws, if it does), \<^verbatim>\<open>JSON.parse\<close> (\<open>None\<close> for a SyntaxError), \<^verbatim>\<open>GLib.strerror\<close>
  and \<^verbatim>\<open>Gio.io_error_from_errno\<close>.
\<close>

record host =
  find_program_in_path :: "string \<Rightarrow> bool"
  subprocess :: "string list \<Rightarrow> proc_outcome"
  completes_at :: "string list \<Rightarrow> nat"
  spawn_command_line_async :: "string \<Rightarrow> string option"
  JSON_parse :: "string \<Rightarrow> jsval option"
  strerror :: "int \<Rightarrow> string"
  io_error_from_errno :: "int \<Rightarrow> int"

text \<open>
  The action id given to \<^verbatim>\<open>runCommand\<close>: a string, or an array of strings (the action
  followed by extra arguments); \<^verbatim>\<open>[command].flat()\<close> accepts both.
\<close>

datatype command = Str string | Arr "string list"

text \<open>
  The effects of a call, in the order they happen: a path lookup, the creation of a
  subprocess from an argv (also when the spawn then fails), a command line handed to \<^verbatim>\<open>GLib.spawn_command_line_async\<close>, a call of
  the caller's callback with its three arguments, and a \<^verbatim>\<open>logError\<close>. The callback is
  the caller's function: the model records the call and takes it to return normally.
\<close>

datatype event =
    Lookup string
  | Subprocess "string list"
  | SpawnLine string
  | Callback bool command string
  | LogError js_error

section \<open>execCommand\<close>

text \<open>
  \<^verbatim>\<open>execCommand(argv, callback)\<close>; \<open>callback\<close> says whether the caller passed one. The
  result is the trace of effects and the state of the returned promise.
\<close>

definition execCommand :: "host \<Rightarrow> string list \<Rightarrow> bool \<Rightarrow> event list \<times> string promise" where
  "execCommand h argv callback =
     (case subprocess h argv of
        SpawnFails m \<Rightarrow>
          ([Subprocess argv, LogError (GLibSpawnError m)], Rejected (GLibSpawnError m))
      | NeverCompletes \<Rightarrow> ([Subprocess argv], Pending)
      | CommunicateFails m \<Rightarrow>
          ([Subprocess argv, LogError (GLibIOError m)], Rejected (GLibIOError m))
      | Communicates ok stdout stderr status \<Rightarrow>
          (let called =
                 (if callback
                  then [Callback ok (Str (join '' '' argv)) (if ok then stdout else stderr)]
                  else [])
           in if \<not> ok
              then (let e = IOErrorEnum (io_error_from_errno h status)
                              (if stderr \<noteq> [] then trim stderr else strerror h status)
                    in (Subprocess argv # called @ [LogError e], Rejected e))
              else (Subprocess argv # called, Resolved stdout)))"

section \<open>runCommand\<close>

text \<open>The keys of \<^verbatim>\<open>validTerminals\<close>, in the order the object literal lists them.\<close>

definition validTerminals :: "string list" where
  "validTerminals = [''x-terminal-emulator'', ''gnome-terminal'', ''ptyxis'', ''kgx'']"

text \<open>
  The terminal prefix \<^verbatim>\<open>cmd\<close> that the chain of tests picks, \<open>None\<close> when no terminal
  is found.
\<close>

definition terminal_cmd :: "host \<Rightarrow> string list option" where
  "terminal_cmd h =
     (if find_program_in_path h ''kgx'' then Some [''kgx'', ''-e'']
      else if find_program_in_path h ''ptyxis'' then Some [''ptyxis'', ''--'', ''sh'', ''-c'']
      else if find_program_in_path h ''gnome-terminal''
        then Some [''gnome-terminal'', ''--'', ''sh'', ''-c'']
      else if find_program_in_path h ''x-terminal-emulator''
        then Some [''x-terminal-emulator'', ''-e'', ''sh'', ''-c'']
      else None)"

text \<open>
  \<^verbatim>\<open>command[0]\<close>, the value the switch tests: the first element of an array, the first
  code unit of a string (as a string of length one), \<open>None\<close> for \<^verbatim>\<open>undefined\<close>.
\<close>

fun command_0 :: "command \<Rightarrow> string option" where
  "command_0 (Str []) = None"
| "command_0 (Str (c # cs)) = Some [c]"
| "command_0 (Arr []) = None"
| "command_0 (Arr (x # xs)) = Some x"

text \<open>\<^verbatim>\<open>[command].flat()\<close>.\<close>

fun flat :: "command \<Rightarrow> string list" where
  "flat (Str s) = [s]"
| "flat (Arr xs) = xs"

text \<open>
  The argv of the default branch. \<^verbatim>\<open>commands.split(" ")\<close> throws a TypeError when the
  flattened array is empty and \<^verbatim>\<open>commands\<close> is \<^verbatim>\<open>undefined\<close>. The destructuring
  \<^verbatim>\<open>[dockerCommand1, dockerCommand2]\<close> reads the first two fields; the second is
  \<^verbatim>\<open>undefined\<close> when there is one field only, and falsy too when it is empty. (A split
  has at least one field, so the first case of the inner match is never reached.)
\<close>

definition default_argv :: "command \<Rightarrow> string \<Rightarrow> js_error + string list" where
  "default_argv command containerName =
     (case flat command of
        [] \<Rightarrow> Inl TypeError
      | commands # commandArguments \<Rightarrow>
          (case js_split CHR '' '' commands of
             [] \<Rightarrow> Inl TypeError
           | dockerCommand1 # others \<Rightarrow>
               Inr ([''docker'', dockerCommand1] @ commandArguments @
                    (case others of
                       [] \<Rightarrow> [containerName]
                     | dockerCommand2 # _ \<Rightarrow>
                         if dockerCommand2 \<noteq> [] then [dockerCommand2] else [containerName]))))"

text \<open>A spawned command line: the promise of \<^verbatim>\<open>runCommand\<close> resolves with \<^verbatim>\<open>undefined\<close>
  unless the spawn throws.\<close>

definition spawn_line :: "host \<Rightarrow> string \<Rightarrow> event list \<times> jsval promise" where
  "spawn_line h line =
     (case spawn_command_line_async h line of
        None \<Rightarrow> ([SpawnLine line], Resolved JUndefined)
      | Some m \<Rightarrow> ([SpawnLine line], Rejected (GLibSpawnError m)))"

text \<open>The promise of \<^verbatim>\<open>execCommand\<close>, returned from the async \<^verbatim>\<open>runCommand\<close>.\<close>

fun as_value :: "string promise \<Rightarrow> jsval promise" where
  "as_value (Resolved s) = Resolved (JStr s)"
| "as_value (Rejected e) = Rejected e"
| "as_value Pending = Pending"

definition runCommand ::
  "host \<Rightarrow> command \<Rightarrow> string \<Rightarrow> bool \<Rightarrow> event list \<times> jsval promise" where
  "runCommand h command containerName callback =
     (let probes = map Lookup validTerminals in
      case terminal_cmd h of
        None \<Rightarrow>
          (let errMsg = ''No valid terminal found ('' @ join '', '' validTerminals @ '')''
           in if callback
              then (probes @ [Callback False command errMsg], Resolved JUndefined)
              else (probes, Rejected TypeError))
      | Some cmd \<Rightarrow>
          (if command_0 command = Some ''exec'' then
             (let r = spawn_line h (join '' ''
                        (cmd @ [[CHR 0x27] @ ''docker exec -it '' @ containerName @
                                '' sh; exec $SHELL'' @ [CHR 0x27]]))
              in (probes @ fst r, snd r))
           else if command_0 command = Some ''logs'' then
             (let r = spawn_line h (join '' ''
                        (cmd @ [[CHR 0x27] @ ''docker logs -f --tail 2000 '' @ containerName @
                                ''; exec $SHELL'' @ [CHR 0x27] @ '' '']))
              in (probes @ fst r, snd r))
           else
             (case default_argv command containerName of
                Inl e \<Rightarrow> (probes, Rejected e)
              | Inr argv \<Rightarrow>
                  (let r = execCommand h argv callback
                   in (probes @ fst r, as_value (snd r))))))"

section \<open>The listing: getContainers and getContainerCount\<close>

definition COMPOSE_PREFIX :: string where
  "COMPOSE_PREFIX = ''com.docker.compose''"

text \<open>
  One element of \<^verbatim>\<open>images\<close>: the destructuring \<^verbatim>\<open>[name, status] = line.split(",")\<close>
  reads the first two fields, and \<^verbatim>\<open>status\<close> is \<^verbatim>\<open>undefined\<close> when the line has one
  field only. (A split has at least one field, so the first case is never reached.)
\<close>

definition image_of_line :: "string \<Rightarrow> string \<times> jsval" where
  "image_of_line line =
     (let fields = js_split CHR '','' line
      in case fields of
           [] \<Rightarrow> ([], JUndefined)
         | name # _ \<Rightarrow> (name, at_index fields 1))"

text \<open>
  \<^verbatim>\<open>psOut.split("\n").filter((line) => line.trim().length).map(...)\<close>, as both listing
  functions compute it.
\<close>

definition images_of :: "string \<Rightarrow> (string \<times> jsval) list" where
  "images_of psOut =
     map image_of_line
       (filter (\<lambda>line. length (trim line) \<noteq> 0) (js_split CHR 0x0A psOut))"

definition list_all_argv :: "string list" where
  "list_all_argv = [''docker'', ''ps'', ''-a'', ''--format'', ''{{.Names}},{{.Status}}'']"

definition list_running_argv :: "string list" where
  "list_running_argv = [''docker'', ''ps'', ''--format'', ''{{.Names}},{{.Status}}'']"

definition inspect_argv :: "string \<Rightarrow> string list" where
  "inspect_argv name = [''docker'', ''inspect'', ''-f'', ''{{json .Config.Labels}}'', name]"

text \<open>
  The moment the promise of an \<^verbatim>\<open>execCommand\<close> call settles: at once when the spawn
  fails (the async function throws before it returns), after the child completes
  otherwise.
\<close>

definition settles_at :: "host \<Rightarrow> string list \<Rightarrow> nat" where
  "settles_at h argv =
     (case subprocess h argv of SpawnFails m \<Rightarrow> 0 | _ \<Rightarrow> Suc (completes_at h argv))"

text \<open>
  \<^verbatim>\<open>Promise.all\<close> over promises paired with the moments they settle: it rejects with the
  reason of the promise that rejects first (the earlier call when two reject at the
  same moment), stays pending when none rejects and one never settles, and resolves
  otherwise with the values in the order of the promises.
\<close>

fun first_rejection :: "(nat \<times> 'a promise) list \<Rightarrow> (nat \<times> js_error) option" where
  "first_rejection [] = None"
| "first_rejection ((t, Rejected e) # ps) =
     (case first_rejection ps of
        None \<Rightarrow> Some (t, e)
      | Some (t', e') \<Rightarrow> if t' < t then Some (t', e') else Some (t, e))"
| "first_rejection ((t, Resolved v) # ps) = first_rejection ps"
| "first_rejection ((t, Pending) # ps) = first_rejection ps"

fun all_values :: "(nat \<times> 'a promise) list \<Rightarrow> 'a list option" where
  "all_values [] = Some []"
| "all_values ((t, Resolved v) # ps) = map_option ((#) v) (all_values ps)"
| "all_values ((t, Rejected e) # ps) = None"
| "all_values ((t, Pending) # ps) = None"

definition Promise_all :: "(nat \<times> 'a promise) list \<Rightarrow> 'a list promise" where
  "Promise_all ps =
     (case first_rejection ps of
        Some (t, e) \<Rightarrow> Rejected e
      | None \<Rightarrow> (case all_values ps of Some vs \<Rightarrow> Resolved vs | None \<Rightarrow> Pending))"

text \<open>
  \<^verbatim>\<open>jsonOutput[key]\<close> throws a TypeError on \<^verbatim>\<open>null\<close> and \<^verbatim>\<open>undefined\<close>; \<open>get_prop\<close> is its
  value on every other result of \<^verbatim>\<open>JSON.parse\<close>, for a key that is no inherited
  property and no index or length of a string or an array (the four label keys, and
  the keys of the records): the own property of an object, \<^verbatim>\<open>undefined\<close> otherwise.
\<close>

definition nullish :: "jsval \<Rightarrow> bool" where
  "nullish v = (v = JNull \<or> v = JUndefined)"

fun get_prop :: "jsval \<Rightarrow> string \<Rightarrow> jsval" where
  "get_prop (JObj kvs) k = (case map_of kvs k of Some v \<Rightarrow> v | None \<Rightarrow> JUndefined)"
| "get_prop v k = JUndefined"

text \<open>The spread \<^verbatim>\<open>...images[i]\<close>: nothing when \<^verbatim>\<open>images[i]\<close> is \<^verbatim>\<open>undefined\<close>.\<close>

definition spread_image :: "(string \<times> jsval) list \<Rightarrow> nat \<Rightarrow> (string \<times> jsval) list" where
  "spread_image images i =
     (if i < length images
      then [(''name'', JStr (fst (images ! i))), (''status'', snd (images ! i))]
      else [])"

text \<open>
  The object spread first into a record: \<^verbatim>\<open>{compose: {...}}\<close> when the project label is
  truthy, \<^verbatim>\<open>{}\<close> otherwise.
\<close>

definition compose_part :: "jsval \<Rightarrow> (string \<times> jsval) list" where
  "compose_part jsonOutput =
     (if truthy (get_prop jsonOutput (COMPOSE_PREFIX @ ''.project''))
      then [(''compose'', JObj
              [(''service'', get_prop jsonOutput (COMPOSE_PREFIX @ ''.service'')),
               (''project'', get_prop jsonOutput (COMPOSE_PREFIX @ ''.project'')),
               (''configFiles'',
                  get_prop jsonOutput (COMPOSE_PREFIX @ ''.project.config_files'')),
               (''workingDir'',
                  get_prop jsonOutput (COMPOSE_PREFIX @ ''.project.working_dir''))])]
      else [])"

text \<open>
  The body of the last \<^verbatim>\<open>map\<close> of \<^verbatim>\<open>getContainers\<close>, for the index \<open>i\<close> and the output
  of the inspect call at that index: the record, or the error thrown.
\<close>

definition container_record ::
  "host \<Rightarrow> (string \<times> jsval) list \<Rightarrow> nat \<times> string \<Rightarrow> js_error + jsval" where
  "container_record h images ic =
     (case JSON_parse h (snd ic) of
        None \<Rightarrow> Inl SyntaxError
      | Some jsonOutput \<Rightarrow>
          if nullish jsonOutput then Inl TypeError
          else Inr (JObj (compose_part jsonOutput @ spread_image images (fst ic))))"

text \<open>\<^verbatim>\<open>xs.map(f)\<close> for an \<open>f\<close> that may throw: the first error ends the map.\<close>

fun map_throwing :: "('a \<Rightarrow> js_error + 'b) \<Rightarrow> 'a list \<Rightarrow> js_error + 'b list" where
  "map_throwing f [] = Inr []"
| "map_throwing f (x # xs) =
     (case f x of
        Inl e \<Rightarrow> Inl e
      | Inr y \<Rightarrow> (case map_throwing f xs of Inl e \<Rightarrow> Inl e | Inr ys \<Rightarrow> Inr (y # ys)))"

text \<open>
  The effects of an \<^verbatim>\<open>execCommand\<close> call fall in two parts. Before the call returns its
  promise it creates the subprocess, and logs the error when the spawn fails; the rest
  happens when the child completes and the callback of \<^verbatim>\<open>communicate_utf8_async\<close> runs.
\<close>

definition effects_at_call :: "host \<Rightarrow> string list \<Rightarrow> bool \<Rightarrow> event list" where
  "effects_at_call h argv callback =
     take (case subprocess h argv of SpawnFails m \<Rightarrow> 2 | _ \<Rightarrow> 1)
       (fst (execCommand h argv callback))"

definition effects_at_completion :: "host \<Rightarrow> string list \<Rightarrow> bool \<Rightarrow> event list" where
  "effects_at_completion h argv callback =
     drop (case subprocess h argv of SpawnFails m \<Rightarrow> 2 | _ \<Rightarrow> 1)
       (fst (execCommand h argv callback))"

text \<open>
  \<^verbatim>\<open>getContainers()\<close>. The inspect calls run concurrently: \<^verbatim>\<open>images.map\<close> makes every call
  in the order of the images, and each creates its subprocess at once; what a call does
  when its child completes comes after all of that, in the order the children complete
  (the earlier call first when two complete at the same moment).
\<close>

definition getContainers :: "host \<Rightarrow> event list \<times> jsval list promise" where
  "getContainers h =
     (let ps = execCommand h list_all_argv False
      in case snd ps of
           Rejected e \<Rightarrow> (fst ps, Rejected e)
         | Pending \<Rightarrow> (fst ps, Pending)
         | Resolved psOut \<Rightarrow>
             (let images = images_of psOut;
                  calls = map (\<lambda>img. execCommand h (inspect_argv (fst img)) False) images;
                  moments = map (\<lambda>img. settles_at h (inspect_argv (fst img))) images;
                  trace = fst ps @
                    concat (map (\<lambda>img. effects_at_call h (inspect_argv (fst img)) False) images) @
                    concat (map snd (sort_key fst
                      (map (\<lambda>img. (completes_at h (inspect_argv (fst img)),
                                    effects_at_completion h (inspect_argv (fst img)) False))
                         images)))
              in case Promise_all (zip moments (map snd calls)) of
                   Rejected e \<Rightarrow> (trace, Rejected e)
                 | Pending \<Rightarrow> (trace, Pending)
                 | Resolved containersInfo \<Rightarrow>
                     (case map_throwing (container_record h images)
                             (enumerate 0 containersInfo) of
                        Inl e \<Rightarrow> (trace, Rejected e)
                      | Inr records \<Rightarrow> (trace, Resolved records))))"

text \<open>\<^verbatim>\<open>getContainerCount()\<close>: \<^verbatim>\<open>images.length\<close>.\<close>

definition getContainerCount :: "host \<Rightarrow> event list \<times> nat promise" where
  "getContainerCount h =
     (let ps = execCommand h list_running_argv False
      in case snd ps of
           Rejected e \<Rightarrow> (fst ps, Rejected e)
         | Pending \<Rightarrow> (fst ps, Pending)
         | Resolved psOut \<Rightarrow> (fst ps, Resolved (length (images_of psOut))))"

section \<open>Vocabulary of the properties\<close>

text \<open>A line with at least one character that is not white space.\<close>

definition nonblank :: "string \<Rightarrow> bool" where
  "nonblank line = (\<exists>c\<in>set line. \<not> is_white_space c)"

text \<open>A listing text made of the given lines, each ended by a line feed.\<close>

definition unlines :: "string list \<Rightarrow> string" where
  "unlines ls = concat (map (\<lambda>l. l @ [CHR 0x0A]) ls)"

text \<open>The text of a line before its first comma (the whole line when it has none).\<close>

definition before_comma :: "string \<Rightarrow> string" where
  "before_comma line = takeWhile (\<lambda>c. c \<noteq> CHR '','') line"

text \<open>
  The text of a line between its first comma and its second (up to the end of the line
  when it has one comma only); \<^verbatim>\<open>undefined\<close> for a line without a comma.
\<close>

definition after_comma :: "string \<Rightarrow> jsval" where
  "after_comma line =
     (if CHR '','' \<in> set line
      then JStr (takeWhile (\<lambda>c. c \<noteq> CHR '','') (tl (dropWhile (\<lambda>c. c \<noteq> CHR '','') line)))
      else JUndefined)"

text \<open>\<^verbatim>\<open>key in record\<close>: the record has the key, whatever its value.\<close>

fun has_key :: "jsval \<Rightarrow> string \<Rightarrow> bool" where
  "has_key (JObj kvs) k = (map_of kvs k \<noteq> None)"
| "has_key v k = False"

text \<open>
  The parsed output of the inspect call for a container name, when the call resolves
  and its output parses.
\<close>

definition labels_of :: "host \<Rightarrow> string \<Rightarrow> jsval option" where
  "labels_of h name =
     (case subprocess h (inspect_argv name) of
        Communicates ok out err status \<Rightarrow> if ok then JSON_parse h out else None
      | _ \<Rightarrow> None)"

text \<open>
  The record of one element of \<^verbatim>\<open>images\<close>, from the parsed output of its own inspect
  call: none when that call does not resolve, its output does not parse, or it parses to
  \<^verbatim>\<open>null\<close>.
\<close>

definition record_for :: "host \<Rightarrow> string \<times> jsval \<Rightarrow> jsval option" where
  "record_for h img =
     (case labels_of h (fst img) of
        None \<Rightarrow> None
      | Some labels \<Rightarrow>
          if nullish labels then None
          else Some (JObj (compose_part labels @
                           [(''name'', JStr (fst img)), (''status'', snd img)])))"

text \<open>
  The action id of a dispatch: the string, or the first element of the array; and the
  extra arguments that follow it in the array.
\<close>

definition action_id :: "command \<Rightarrow> string option" where
  "action_id command = (case flat command of [] \<Rightarrow> None | a # _ \<Rightarrow> Some a)"

definition extra_arguments :: "command \<Rightarrow> string list" where
  "extra_arguments command = tl (flat command)"

text \<open>An effect that executes an external command.\<close>

fun launches :: "event \<Rightarrow> bool" where
  "launches (Subprocess argv) = True"
| "launches (SpawnLine line) = True"
| "launches e = False"

text \<open>
  What \<^verbatim>\<open>runCommand\<close> does when it hands an argv to \<^verbatim>\<open>execCommand\<close>: the probes, then
  the effects and the promise of that call.
\<close>

definition delegates :: "host \<Rightarrow> string list \<Rightarrow> bool \<Rightarrow> event list \<times> jsval promise" where
  "delegates h argv callback =
     (map Lookup validTerminals @ fst (execCommand h argv callback),
      as_value (snd (execCommand h argv callback)))"

text \<open>
  A host for examples: the programs found, the outcome of each subprocess and
  \<^verbatim>\<open>JSON.parse\<close> are given; every child completes at the same moment.
\<close>

definition sample_host ::
  "(string \<Rightarrow> bool) \<Rightarrow> (string list \<Rightarrow> proc_outcome) \<Rightarrow> (string \<Rightarrow> jsval option) \<Rightarrow> host" where
  "sample_host found run parse =
     \<lparr>find_program_in_path = found, subprocess = run, completes_at = (\<lambda>argv. 0),
      spawn_command_line_async = (\<lambda>line. None), JSON_parse = parse,
      strerror = (\<lambda>status. ''Unknown error''), io_error_from_errno = (\<lambda>status. 0)\<rparr>"

text \<open>
  The JSON text of the label map of a compose container, and the object it parses to.
\<close>

definition quoted :: "string \<Rightarrow> string" where
  "quoted s = [CHR 0x22] @ s @ [CHR 0x22]"

definition compose_labels_text :: string where
  "compose_labels_text =
     ''{'' @ quoted ''com.docker.compose.project'' @ '':'' @ quoted ''p'' @ '','' @
     quoted ''com.docker.compose.service'' @ '':'' @ quoted ''s'' @ '','' @
     quoted ''com.docker.compose.project.config_files'' @ '':'' @ quoted ''f'' @ '','' @
     quoted ''com.docker.compose.project.working_dir'' @ '':'' @ quoted ''w'' @ ''}''"

definition compose_labels :: "(string \<times> jsval) list" where
  "compose_labels =
     [(''com.docker.compose.project'', JStr ''p''),
      (''com.docker.compose.service'', JStr ''s''),
      (''com.docker.compose.project.config_files'', JStr ''f''),
      (''com.docker.compose.project.working_dir'', JStr ''w'')]"

text \<open>
  A host for examples of the listing: both listing commands print the given lines, the
  inspect call for the container \<open>c\<close> prints the compose labels, and every other inspect
  call prints an empty object.
\<close>

definition listing_host :: "string list \<Rightarrow> host" where
  "listing_host ls =
     sample_host (\<lambda>p. True)
       (\<lambda>argv. if argv = list_all_argv \<or> argv = list_running_argv
                then Communicates True (unlines ls) [] 0
                else if argv = inspect_argv ''c''
                then Communicates True compose_labels_text [] 0
                else Communicates True ''{}'' [] 0)
       (\<lambda>s. if s = compose_labels_text then Some (JObj compose_labels)
            else if s = ''{}'' then Some (JObj [])
            else None)"

section \<open>Strings: splitting, joining, trimming\<close>

lemma split_from_not_Nil: "split_from cur sep s \<noteq> []"
  by (induction s arbitrary: cur) auto

lemma js_split_not_Nil: "js_split sep s \<noteq> []"
  by (simp add: js_split_def split_from_not_Nil)

lemma split_from_no_sep: "sep \<notin> set a \<Longrightarrow> split_from cur sep a = [rev cur @ a]"
  by (induction a arbitrary: cur) auto

lemma split_from_sep:
  "sep \<notin> set a \<Longrightarrow> split_from cur sep (a @ sep # s) = (rev cur @ a) # split_from [] sep s"
  by (induction a arbitrary: cur) auto

lemma js_split_no_sep: "sep \<notin> set a \<Longrightarrow> js_split sep a = [a]"
  by (simp add: js_split_def split_from_no_sep)

lemma js_split_sep: "sep \<notin> set a \<Longrightarrow> js_split sep (a @ sep # s) = a # js_split sep s"
  by (simp add: js_split_def split_from_sep)

lemma trim_empty_iff: "trim s = [] \<longleftrightarrow> (\<forall>c\<in>set s. is_white_space c)"
proof
  assume "trim s = []"
  then have "dropWhile is_white_space (rev (dropWhile is_white_space s)) = []"
    by (simp add: trim_def)
  then have all: "\<forall>c\<in>set (dropWhile is_white_space s). is_white_space c"
    by (simp add: dropWhile_eq_Nil_conv)
  have "dropWhile is_white_space s = []"
  proof (cases "dropWhile is_white_space s")
    case Nil then show ?thesis .
  next
    case (Cons c cs)
    then have "\<not> is_white_space c" using hd_dropWhile[of is_white_space s] by simp
    with all Cons show ?thesis by simp
  qed
  then show "\<forall>c\<in>set s. is_white_space c" by (simp add: dropWhile_eq_Nil_conv)
next
  assume "\<forall>c\<in>set s. is_white_space c"
  then have "dropWhile is_white_space s = []" by (simp add: dropWhile_eq_Nil_conv)
  then show "trim s = []" unfolding trim_def by (simp only: rev.simps dropWhile.simps)
qed

lemma join_split_from: "join [sep] (split_from cur sep s) = rev cur @ s"
proof (induction s arbitrary: cur)
  case Nil then show ?case by simp
next
  case (Cons c s)
  show ?case
  proof (cases "c = sep")
    case True
    obtain x xs where sp: "split_from [] sep s = x # xs"
      using split_from_not_Nil[of "[]" sep s] by (cases "split_from [] sep s") auto
    have "join [sep] (x # xs) = s" using Cons.IH[of "[]"] sp by simp
    then show ?thesis using True sp by simp
  next
    case False
    then show ?thesis using Cons.IH[of "c # cur"] by simp
  qed
qed

lemma join_js_split: "join [sep] (js_split sep s) = s"
  by (simp add: js_split_def join_split_from)

section \<open>execCommand: the outcomes of a subprocess\<close>

lemma sample_host_simps:
  "find_program_in_path (sample_host found run parse) = found"
  "subprocess (sample_host found run parse) = run"
  "JSON_parse (sample_host found run parse) = parse"
  "completes_at (sample_host found run parse) = (\<lambda>argv. 0)"
  by (simp_all add: sample_host_def)

text \<open>
  When \<^verbatim>\<open>communicate_utf8_finish\<close> returns \<open>ok\<close> false, the callback is called with
  \<open>false\<close>, the argv joined by spaces and the captured stderr, and the promise is
  rejected with an error that is logged: its code comes from the exit status, its
  message is the trimmed stderr, or the \<^verbatim>\<open>strerror\<close> of the exit status when stderr is
  empty.
\<close>

theorem execCommand_not_ok:
  assumes "subprocess h argv = Communicates False out err status"
  shows "execCommand h argv True =
    ([Subprocess argv, Callback False (Str (join '' '' argv)) err,
      LogError (IOErrorEnum (io_error_from_errno h status) (if err \<noteq> [] then trim err else strerror h status))],
     Rejected (IOErrorEnum (io_error_from_errno h status) (if err \<noteq> [] then trim err else strerror h status)))"
  using assms by (simp add: execCommand_def Let_def)

theorem execCommand_not_ok_witness:
  "execCommand
     (sample_host (\<lambda>p. True)
        (\<lambda>argv. Communicates False [] '' Error: No such container: nope '' 1) (\<lambda>s. None))
     [''docker'', ''start'', ''nope''] True =
   ([Subprocess [''docker'', ''start'', ''nope''],
     Callback False (Str ''docker start nope'') '' Error: No such container: nope '',
     LogError (IOErrorEnum 0 ''Error: No such container: nope'')],
    Rejected (IOErrorEnum 0 ''Error: No such container: nope''))"
proof -
  let ?h = "sample_host (\<lambda>p. True)
        (\<lambda>argv. Communicates False [] '' Error: No such container: nope '' 1) (\<lambda>s. None)"
  have run: "subprocess ?h [''docker'', ''start'', ''nope''] =
      Communicates False [] '' Error: No such container: nope '' 1"
    by (simp add: sample_host_simps)
  from execCommand_not_ok[OF run] show ?thesis
    by (simp add: sample_host_def trim_def is_white_space_def)
qed

text \<open>
  A child that never completes leaves the promise of \<^verbatim>\<open>execCommand\<close> pending for ever:
  there is no timeout, and the callback is not called.
\<close>

theorem execCommand_never_completes:
  assumes "subprocess h argv = NeverCompletes"
  shows "execCommand h argv callback = ([Subprocess argv], Pending)"
  using assms by (simp add: execCommand_def)

theorem execCommand_never_completes_witness:
  "execCommand (sample_host (\<lambda>p. True) (\<lambda>argv. NeverCompletes) (\<lambda>s. None))
     [''docker'', ''logs'', ''web''] True =
   ([Subprocess [''docker'', ''logs'', ''web'']], Pending)"
  using execCommand_never_completes
    [of "sample_host (\<lambda>p. True) (\<lambda>argv. NeverCompletes) (\<lambda>s. None)"
      "[''docker'', ''logs'', ''web'']" True]
  by (simp add: sample_host_simps)

text \<open>
  Claim C2. A child that exits with a non-zero status should have the callback called
  with \<open>false\<close>, the joined command and the captured stderr, and the promise rejected.
  The code tests the flag \<open>ok\<close> of \<^verbatim>\<open>communicate_utf8_finish\<close> and reads the exit status
  only after that test has failed: when the communication succeeded (\<open>ok\<close> true) and the
  exit status is not zero, it calls the callback with \<open>true\<close> and stdout, and resolves.
\<close>

theorem execCommand_exit_status_ignored:
  assumes "subprocess h argv = Communicates True out err status" and "status \<noteq> 0"
  shows "execCommand h argv True =
    ([Subprocess argv, Callback True (Str (join '' '' argv)) out], Resolved out)"
  using assms by (simp add: execCommand_def)

theorem execCommand_exit_status_ignored_witness:
  "execCommand
     (sample_host (\<lambda>p. True)
        (\<lambda>argv. Communicates True [] ''Error: No such container: nope'' 1) (\<lambda>s. None))
     [''docker'', ''start'', ''nope''] True =
   ([Subprocess [''docker'', ''start'', ''nope''],
     Callback True (Str ''docker start nope'') []], Resolved [])"
  using execCommand_exit_status_ignored
    [of "sample_host (\<lambda>p. True)
        (\<lambda>argv. Communicates True [] ''Error: No such container: nope'' 1) (\<lambda>s. None)"
      "[''docker'', ''start'', ''nope'']" "[]" "''Error: No such container: nope''" 1]
  by (simp add: sample_host_simps)

text \<open>
  Claim C3. When the process cannot be spawned the callback, if one is passed, should be
  called with \<open>false\<close>, the joined command and a system-level message, and the promise
  should fail with the spawn error. The code does the second only: \<^verbatim>\<open>proc.init\<close> throws,
  the outer \<^verbatim>\<open>catch\<close> logs and rethrows, so the promise is rejected with the spawn error
  (it neither stays pending nor resolves), and the trace holds no call of the callback,
  although the other failure path of \<^verbatim>\<open>execCommand\<close> and the failure of \<^verbatim>\<open>runCommand\<close> to
  find a terminal both report through it.
\<close>

theorem execCommand_spawn_failure:
  assumes "subprocess h argv = SpawnFails m"
  shows "execCommand h argv callback =
    ([Subprocess argv, LogError (GLibSpawnError m)], Rejected (GLibSpawnError m))"
  using assms by (simp add: execCommand_def)

theorem execCommand_spawn_failure_witness:
  "execCommand (sample_host (\<lambda>p. False) (\<lambda>argv. SpawnFails ''No such file or directory'') (\<lambda>s. None))
     [''no-such-binary''] True =
   ([Subprocess [''no-such-binary''], LogError (GLibSpawnError ''No such file or directory'')],
    Rejected (GLibSpawnError ''No such file or directory''))"
  using execCommand_spawn_failure
    [of "sample_host (\<lambda>p. False) (\<lambda>argv. SpawnFails ''No such file or directory'') (\<lambda>s. None)"
      "[''no-such-binary'']" "''No such file or directory''" True]
  by (simp add: sample_host_simps)

text \<open>
  For a binary that does not exist and a callback passed, the callback is not called at
  all.
\<close>

lemma execCommand_spawn_failure_no_callback:
  "\<not> (\<exists>ok command msg. Callback ok command msg \<in>
        set (fst (execCommand
          (sample_host (\<lambda>p. False) (\<lambda>argv. SpawnFails ''No such file or directory'') (\<lambda>s. None))
          [''no-such-binary''] True)))"
  by (simp add: execCommand_def sample_host_simps)

section \<open>runCommand: the terminal gate\<close>

lemma terminal_cmd_None:
  "\<forall>t\<in>set validTerminals. \<not> find_program_in_path h t \<Longrightarrow> terminal_cmd h = None"
  by (simp add: terminal_cmd_def validTerminals_def)

lemma terminal_cmd_Some:
  "\<exists>t\<in>set validTerminals. find_program_in_path h t \<Longrightarrow> \<exists>cmd. terminal_cmd h = Some cmd"
  by (auto simp add: terminal_cmd_def validTerminals_def)

lemma no_terminal_message:
  "''No valid terminal found ('' @ join '', '' validTerminals @ '')'' =
   ''No valid terminal found (x-terminal-emulator, gnome-terminal, ptyxis, kgx)''"
  by (simp add: validTerminals_def)

lemma runCommand_no_terminal:
  assumes "\<forall>t\<in>set validTerminals. \<not> find_program_in_path h t"
  shows "runCommand h command containerName True =
    (map Lookup validTerminals @
       [Callback False command
          ''No valid terminal found (x-terminal-emulator, gnome-terminal, ptyxis, kgx)''],
     Resolved JUndefined)"
  using terminal_cmd_None[OF assms] no_terminal_message
  by (simp add: runCommand_def Let_def)

lemma runCommand_probes_first:
  "\<exists>rest. fst (runCommand h command containerName callback) = map Lookup validTerminals @ rest"
  by (simp add: runCommand_def Let_def split: option.split sum.split)

lemma message_lists_terminals:
  "\<forall>t\<in>set validTerminals. \<exists>a b.
     ''No valid terminal found (x-terminal-emulator, gnome-terminal, ptyxis, kgx)'' = a @ t @ b"
proof
  fix t assume "t \<in> set validTerminals"
  then consider "t = ''x-terminal-emulator''" | "t = ''gnome-terminal''" | "t = ''ptyxis''" | "t = ''kgx''"
    by (auto simp add: validTerminals_def)
  then show "\<exists>a b. ''No valid terminal found (x-terminal-emulator, gnome-terminal, ptyxis, kgx)'' = a @ t @ b"
  proof cases
    case 1
    have "''No valid terminal found (x-terminal-emulator, gnome-terminal, ptyxis, kgx)'' =
       ''No valid terminal found ('' @ ''x-terminal-emulator'' @ '', gnome-terminal, ptyxis, kgx)''" by simp
    with 1 show ?thesis by blast
  next
    case 2
    have "''No valid terminal found (x-terminal-emulator, gnome-terminal, ptyxis, kgx)'' =
       ''No valid terminal found (x-terminal-emulator, '' @ ''gnome-terminal'' @ '', ptyxis, kgx)''" by simp
    with 2 show ?thesis by blast
  next
    case 3
    have "''No valid terminal found (x-terminal-emulator, gnome-terminal, ptyxis, kgx)'' =
       ''No valid terminal found (x-terminal-emulator, gnome-terminal, '' @ ''ptyxis'' @ '', kgx)''" by simp
    with 3 show ?thesis by blast
  next
    case 4
    have "''No valid terminal found (x-terminal-emulator, gnome-terminal, ptyxis, kgx)'' =
       ''No valid terminal found (x-terminal-emulator, gnome-terminal, ptyxis, '' @ ''kgx'' @ '')''" by simp
    with 4 show ?thesis by blast
  qed
qed

text \<open>
  Claim C7. When none of the terminal emulators is found, a dispatch of the action
  \<open>exec\<close> or \<open>logs\<close> (as a string or as the head of an array) calls the callback with
  \<open>false\<close>, the command and a message in which every looked-up terminal identifier
  occurs, and executes no external command.
\<close>

theorem runCommand_exec_logs_no_terminal:
  assumes none: "\<forall>t\<in>set validTerminals. \<not> find_program_in_path h t"
      and action: "action_id command = Some ''exec'' \<or> action_id command = Some ''logs''"
  shows "runCommand h command containerName True =
            (map Lookup validTerminals @
               [Callback False command
                  ''No valid terminal found (x-terminal-emulator, gnome-terminal, ptyxis, kgx)''],
             Resolved JUndefined) \<and>
          (\<forall>t\<in>set validTerminals. \<exists>a b.
             ''No valid terminal found (x-terminal-emulator, gnome-terminal, ptyxis, kgx)'' =
             a @ t @ b) \<and>
          filter launches (fst (runCommand h command containerName True)) = []"
proof -
  have run: "runCommand h command containerName True =
      (map Lookup validTerminals @
         [Callback False command
            ''No valid terminal found (x-terminal-emulator, gnome-terminal, ptyxis, kgx)''],
       Resolved JUndefined)"
    by (rule runCommand_no_terminal[OF none])
  have "filter launches (fst (runCommand h command containerName True)) = []"
    by (simp add: run validTerminals_def)
  with run message_lists_terminals show ?thesis by blast
qed

theorem runCommand_exec_logs_no_terminal_witness:
  "runCommand (sample_host (\<lambda>p. False) (\<lambda>argv. NeverCompletes) (\<lambda>s. None))
      (Arr [''exec'']) ''web'' True =
     ([Lookup ''x-terminal-emulator'', Lookup ''gnome-terminal'', Lookup ''ptyxis'',
       Lookup ''kgx'',
       Callback False (Arr [''exec''])
         ''No valid terminal found (x-terminal-emulator, gnome-terminal, ptyxis, kgx)''],
      Resolved JUndefined)"
proof -
  let ?h = "sample_host (\<lambda>p. False) (\<lambda>argv. NeverCompletes) (\<lambda>s. None)"
  have none: "\<forall>t\<in>set validTerminals. \<not> find_program_in_path ?h t"
    by (simp add: sample_host_simps)
  have action: "action_id (Arr [''exec'']) = Some ''exec'' \<or> action_id (Arr [''exec'']) = Some ''logs''"
    by (simp add: action_id_def)
  from runCommand_exec_logs_no_terminal[OF none action, of "''web''", THEN conjunct1]
  show ?thesis by (simp add: validTerminals_def)
qed

text \<open>
  Claim C10. For every action id, \<^verbatim>\<open>runCommand\<close> first looks the four terminal emulators
  up; when none is found it calls the callback with \<open>false\<close> and returns (the promise
  resolves with \<^verbatim>\<open>undefined\<close>) without any external command executed.
\<close>

theorem runCommand_every_action_no_terminal:
  "(\<exists>rest. fst (runCommand h command containerName callback) = map Lookup validTerminals @ rest) \<and>
   ((\<forall>t\<in>set validTerminals. \<not> find_program_in_path h t) \<longrightarrow>
      runCommand h command containerName True =
         (map Lookup validTerminals @
            [Callback False command
               ''No valid terminal found (x-terminal-emulator, gnome-terminal, ptyxis, kgx)''],
          Resolved JUndefined) \<and>
      filter launches (fst (runCommand h command containerName True)) = [])"
proof (intro conjI impI)
  show "\<exists>rest. fst (runCommand h command containerName callback) = map Lookup validTerminals @ rest"
    by (rule runCommand_probes_first)
next
  assume none: "\<forall>t\<in>set validTerminals. \<not> find_program_in_path h t"
  show "runCommand h command containerName True =
         (map Lookup validTerminals @
            [Callback False command
               ''No valid terminal found (x-terminal-emulator, gnome-terminal, ptyxis, kgx)''],
          Resolved JUndefined)"
    by (rule runCommand_no_terminal[OF none])
  show "filter launches (fst (runCommand h command containerName True)) = []"
    by (simp add: runCommand_no_terminal[OF none] validTerminals_def)
qed

theorem runCommand_every_action_no_terminal_witness:
  "runCommand (sample_host (\<lambda>p. False) (\<lambda>argv. Communicates True [] [] 0) (\<lambda>s. None))
      (Str ''stop'') ''web'' True =
     ([Lookup ''x-terminal-emulator'', Lookup ''gnome-terminal'', Lookup ''ptyxis'',
       Lookup ''kgx'',
       Callback False (Str ''stop'')
         ''No valid terminal found (x-terminal-emulator, gnome-terminal, ptyxis, kgx)''],
      Resolved JUndefined)"
proof -
  let ?h = "sample_host (\<lambda>p. False) (\<lambda>argv. Communicates True [] [] 0) (\<lambda>s. None)"
  have none: "\<forall>t\<in>set validTerminals. \<not> find_program_in_path ?h t"
    by (simp add: sample_host_simps)
  from runCommand_every_action_no_terminal[of ?h "Str ''stop''" "''web''" True, THEN conjunct2, THEN mp, OF none, THEN conjunct1]
  show ?thesis by (simp add: validTerminals_def)
qed

section \<open>runCommand: the default branch\<close>

lemma default_argv_one_token:
  assumes "flat command = action # extra" and "CHR '' '' \<notin> set action"
  shows "default_argv command containerName = Inr ([''docker'', action] @ extra @ [containerName])"
  using assms by (simp add: default_argv_def js_split_no_sep)

lemma default_argv_two_tokens:
  assumes "flat command = (first @ '' '' @ second) # extra"
      and "CHR '' '' \<notin> set first" and "CHR '' '' \<notin> set second" and "second \<noteq> []"
  shows "default_argv command containerName = Inr ([''docker'', first] @ extra @ [second])"
proof -
  have "js_split CHR '' '' (first @ CHR '' '' # second) = [first, second]"
    using assms(2,3) by (simp add: js_split_sep js_split_no_sep)
  then show ?thesis using assms(1,4) by (simp add: default_argv_def)
qed

lemma runCommand_default:
  assumes "\<exists>t\<in>set validTerminals. find_program_in_path h t"
      and "command_0 command \<noteq> Some ''exec''" and "command_0 command \<noteq> Some ''logs''"
      and "default_argv command containerName = Inr argv"
  shows "runCommand h command containerName callback = delegates h argv callback"
proof -
  obtain cmd where "terminal_cmd h = Some cmd" using terminal_cmd_Some[OF assms(1)] by blast
  then show ?thesis using assms(2,3,4) by (simp add: runCommand_def delegates_def Let_def)
qed

lemma delegates_launches: "Subprocess argv \<in> set (fst (delegates h argv callback))"
  by (simp add: delegates_def execCommand_def Let_def split: proc_outcome.split)

lemma flat_action:
  "action_id command = Some action \<Longrightarrow> flat command = action # extra_arguments command"
  by (cases "flat command") (simp_all add: action_id_def extra_arguments_def)

lemma switch_reads_action:
  assumes "action_id command = Some action" and "action \<noteq> ''exec''" and "action \<noteq> ''logs''"
  shows "command_0 command \<noteq> Some ''exec'' \<and> command_0 command \<noteq> Some ''logs''"
proof (cases command)
  case (Str s)
  then show ?thesis by (cases s) simp_all
next
  case (Arr xs)
  then show ?thesis using assms by (cases xs) (simp_all add: action_id_def)
qed

text \<open>
  Claim C8, as amended. When at least one terminal emulator is found: the action
  \<open>restart\<close> with the container name \<open>web\<close> hands \<^verbatim>\<open>docker restart web\<close> to
  \<^verbatim>\<open>execCommand\<close>; an action id of one token other than \<open>exec\<close> and \<open>logs\<close> gives
  \<^verbatim>\<open>docker <action> [extra arguments] <container>\<close>; an action id of two tokens (two
  words separated by a space, as the compose actions are) gives
  \<^verbatim>\<open>docker <first> [extra arguments] <second>\<close>, the second token standing where the
  container name would.
\<close>

theorem runCommand_default_invocation:
  assumes found: "\<exists>t\<in>set validTerminals. find_program_in_path h t"
  shows "runCommand h (Str ''restart'') ''web'' callback =
           delegates h [''docker'', ''restart'', ''web''] callback \<and>
         Subprocess [''docker'', ''restart'', ''web''] \<in>
           set (fst (runCommand h (Str ''restart'') ''web'' callback)) \<and>
         (\<forall>command action containerName.
            action_id command = Some action \<and> action \<noteq> ''exec'' \<and> action \<noteq> ''logs'' \<and>
            CHR '' '' \<notin> set action \<longrightarrow>
            runCommand h command containerName callback =
              delegates h ([''docker'', action] @ extra_arguments command @ [containerName])
                callback) \<and>
         (\<forall>command first second containerName.
            action_id command = Some (first @ '' '' @ second) \<and>
            CHR '' '' \<notin> set first \<and> CHR '' '' \<notin> set second \<and> second \<noteq> [] \<longrightarrow>
            runCommand h command containerName callback =
              delegates h ([''docker'', first] @ extra_arguments command @ [second]) callback)"
proof (intro conjI allI impI)
  have "default_argv (Str ''restart'') ''web'' = Inr [''docker'', ''restart'', ''web'']"
    using default_argv_one_token[of "Str ''restart''" "''restart''" "[]" "''web''"] by simp
  then show restart: "runCommand h (Str ''restart'') ''web'' callback =
      delegates h [''docker'', ''restart'', ''web''] callback"
    using runCommand_default[OF found, of "Str ''restart''" "''web''"] by simp
  show "Subprocess [''docker'', ''restart'', ''web''] \<in>
      set (fst (runCommand h (Str ''restart'') ''web'' callback))"
    unfolding restart by (rule delegates_launches)
next
  fix command action containerName
  assume a: "action_id command = Some action \<and> action \<noteq> ''exec'' \<and> action \<noteq> ''logs'' \<and>
            CHR '' '' \<notin> set action"
  then have switch: "command_0 command \<noteq> Some ''exec''" "command_0 command \<noteq> Some ''logs''"
    using switch_reads_action[of command action] by simp_all
  from a have "default_argv command containerName =
      Inr ([''docker'', action] @ extra_arguments command @ [containerName])"
    using default_argv_one_token[OF flat_action] by blast
  then show "runCommand h command containerName callback =
      delegates h ([''docker'', action] @ extra_arguments command @ [containerName]) callback"
    by (rule runCommand_default[OF found switch])
next
  fix command first second containerName
  assume a: "action_id command = Some (first @ '' '' @ second) \<and>
            CHR '' '' \<notin> set first \<and> CHR '' '' \<notin> set second \<and> second \<noteq> []"
  have space: "CHR '' '' \<in> set (first @ '' '' @ second)" by simp
  have "first @ '' '' @ second \<noteq> ''exec''"
  proof
    assume "first @ '' '' @ second = ''exec''"
    with space have "CHR '' '' \<in> set ''exec''" by (simp only:)
    then show False by simp
  qed
  moreover have "first @ '' '' @ second \<noteq> ''logs''"
  proof
    assume "first @ '' '' @ second = ''logs''"
    with space have "CHR '' '' \<in> set ''logs''" by (simp only:)
    then show False by simp
  qed
  ultimately have switch: "command_0 command \<noteq> Some ''exec''" "command_0 command \<noteq> Some ''logs''"
    using a switch_reads_action[of command "first @ '' '' @ second"] by simp_all
  from a have "default_argv command containerName =
      Inr ([''docker'', first] @ extra_arguments command @ [second])"
    using default_argv_two_tokens[OF flat_action] by blast
  then show "runCommand h command containerName callback =
      delegates h ([''docker'', first] @ extra_arguments command @ [second]) callback"
    by (rule runCommand_default[OF found switch])
qed

theorem runCommand_default_invocation_witness:
  "runCommand (sample_host (\<lambda>p. p = ''gnome-terminal'') (\<lambda>argv. Communicates True ''web'' [] 0) (\<lambda>s. None))
     (Str ''restart'') ''web'' True =
   ([Lookup ''x-terminal-emulator'', Lookup ''gnome-terminal'', Lookup ''ptyxis'',
     Lookup ''kgx'', Subprocess [''docker'', ''restart'', ''web''],
     Callback True (Str ''docker restart web'') ''web''],
    Resolved (JStr ''web'')) \<and>
   runCommand (sample_host (\<lambda>p. p = ''gnome-terminal'') (\<lambda>argv. Communicates True ''web'' [] 0) (\<lambda>s. None))
     (Arr [''stop'']) ''web'' True =
   ([Lookup ''x-terminal-emulator'', Lookup ''gnome-terminal'', Lookup ''ptyxis'',
     Lookup ''kgx'', Subprocess [''docker'', ''stop'', ''web''],
     Callback True (Str ''docker stop web'') ''web''],
    Resolved (JStr ''web'')) \<and>
   runCommand (sample_host (\<lambda>p. p = ''gnome-terminal'') (\<lambda>argv. Communicates True ''web'' [] 0) (\<lambda>s. None))
     (Arr [''compose start'', ''-f'', ''x.yml'']) ''db'' True =
   ([Lookup ''x-terminal-emulator'', Lookup ''gnome-terminal'', Lookup ''ptyxis'',
     Lookup ''kgx'', Subprocess [''docker'', ''compose'', ''-f'', ''x.yml'', ''start''],
     Callback True (Str ''docker compose -f x.yml start'') ''web''],
    Resolved (JStr ''web''))"
proof -
  let ?h = "sample_host (\<lambda>p. p = ''gnome-terminal'') (\<lambda>argv. Communicates True ''web'' [] 0) (\<lambda>s. None)"
  have found: "\<exists>t\<in>set validTerminals. find_program_in_path ?h t"
    by (simp add: sample_host_simps validTerminals_def)
  note all = runCommand_default_invocation[OF found, of True]
  have one: "runCommand ?h (Str ''restart'') ''web'' True =
      delegates ?h [''docker'', ''restart'', ''web''] True"
    using all by (rule conjunct1)
  have stop: "runCommand ?h (Arr [''stop'']) ''web'' True =
      delegates ?h ([''docker'', ''stop''] @ extra_arguments (Arr [''stop'']) @ [''web'']) True"
  proof -
    have "action_id (Arr [''stop'']) = Some ''stop'' \<and> ''stop'' \<noteq> ''exec'' \<and>
        ''stop'' \<noteq> ''logs'' \<and> CHR '' '' \<notin> set ''stop''"
      by (simp add: action_id_def)
    with all show ?thesis by blast
  qed
  have two: "runCommand ?h (Arr [''compose start'', ''-f'', ''x.yml'']) ''db'' True =
      delegates ?h ([''docker'', ''compose''] @
        extra_arguments (Arr [''compose start'', ''-f'', ''x.yml'']) @ [''start'']) True"
  proof -
    have "action_id (Arr [''compose start'', ''-f'', ''x.yml'']) = Some (''compose'' @ '' '' @ ''start'') \<and>
        CHR '' '' \<notin> set ''compose'' \<and> CHR '' '' \<notin> set ''start'' \<and> ''start'' \<noteq> []"
      by (simp add: action_id_def)
    with all show ?thesis by blast
  qed
  show ?thesis
    unfolding one stop two
    by (simp add: delegates_def execCommand_def sample_host_simps validTerminals_def
        extra_arguments_def)
qed

text \<open>
  Claim C8 as stated fails where no terminal emulator is found: the action \<open>restart\<close>
  with the container name \<open>web\<close> then yields no invocation \<^verbatim>\<open>docker restart web\<close>.
\<close>

theorem runCommand_restart_without_terminal:
  "Subprocess [''docker'', ''restart'', ''web''] \<notin>
     set (fst (runCommand
        (sample_host (\<lambda>p. False) (\<lambda>argv. Communicates True [] [] 0) (\<lambda>s. None))
        (Str ''restart'') ''web'' True))"
proof -
  let ?h = "sample_host (\<lambda>p. False) (\<lambda>argv. Communicates True [] [] 0) (\<lambda>s. None)"
  have none: "\<forall>t\<in>set validTerminals. \<not> find_program_in_path ?h t"
    by (simp add: sample_host_simps)
  show ?thesis by (simp add: runCommand_no_terminal[OF none] validTerminals_def)
qed

section \<open>Promises and the sequential map\<close>

lemma execCommand_Resolved_iff:
  "snd (execCommand h argv callback) = Resolved out \<longleftrightarrow>
   (\<exists>err status. subprocess h argv = Communicates True out err status)"
  by (cases "subprocess h argv") (auto simp add: execCommand_def Let_def)

lemma first_rejection_None_iff:
  "first_rejection ps = None \<longleftrightarrow> (\<forall>e. e \<notin> set (map snd ps) \<or> (\<forall>x. e \<noteq> Rejected x))"
  by (induction ps rule: first_rejection.induct) (auto split: option.splits)

lemma all_values_Some_iff: "all_values ps = Some vs \<longleftrightarrow> map snd ps = map Resolved vs"
  by (induction ps arbitrary: vs rule: all_values.induct) auto

lemma Promise_all_Resolved_iff: "Promise_all ps = Resolved vs \<longleftrightarrow> map snd ps = map Resolved vs"
proof
  assume "Promise_all ps = Resolved vs"
  then show "map snd ps = map Resolved vs"
    by (auto simp add: Promise_all_def all_values_Some_iff split: option.splits)
next
  assume m: "map snd ps = map Resolved vs"
  then have "first_rejection ps = None"
    by (auto simp add: first_rejection_None_iff)
  moreover have "all_values ps = Some vs" using m by (simp add: all_values_Some_iff)
  ultimately show "Promise_all ps = Resolved vs" by (simp add: Promise_all_def)
qed

lemma map_throwing_Inr_iff: "map_throwing f xs = Inr ys \<longleftrightarrow> map f xs = map Inr ys"
proof (induction xs arbitrary: ys)
  case Nil
  then show ?case by auto
next
  case (Cons x xs)
  show ?case
  proof (cases "f x")
    case (Inl e)
    then show ?thesis by (cases ys) auto
  next
    case fx: (Inr y)
    show ?thesis
    proof (cases "map_throwing f xs")
      case (Inl e)
      then have "\<And>zs. map f xs \<noteq> map Inr zs" using Cons.IH by auto
      with fx Inl show ?thesis by (cases ys) auto
    next
      case (Inr zs)
      then have "map f xs = map Inr zs" using Cons.IH by simp
      with fx Inr show ?thesis by (cases ys) (auto simp add: inj_map_eq_map)
    qed
  qed
qed

section \<open>getContainers: the records of a resolved listing\<close>

lemma labels_of_Some_iff:
  "labels_of h name = Some labels \<longleftrightarrow>
   (\<exists>out err status. subprocess h (inspect_argv name) = Communicates True out err status \<and>
      JSON_parse h out = Some labels)"
  by (cases "subprocess h (inspect_argv name)") (auto simp add: labels_of_def)

lemma record_for_Some_iff:
  "record_for h img = Some r \<longleftrightarrow>
   (\<exists>labels. labels_of h (fst img) = Some labels \<and> \<not> nullish labels \<and>
      r = JObj (compose_part labels @ [(''name'', JStr (fst img)), (''status'', snd img)]))"
  by (cases "labels_of h (fst img)") (auto simp add: record_for_def)

lemma container_record_Inr_iff:
  assumes "i < length images"
  shows "container_record h images (i, out) = Inr r \<longleftrightarrow>
   (\<exists>labels. JSON_parse h out = Some labels \<and> \<not> nullish labels \<and>
      r = JObj (compose_part labels @
                [(''name'', JStr (fst (images ! i))), (''status'', snd (images ! i))]))"
  using assms
  by (cases "JSON_parse h out") (auto simp add: container_record_def spread_image_def)

lemma records_of_outputs:
  "(\<exists>outs. map (\<lambda>img. snd (execCommand h (inspect_argv (fst img)) False)) images =
             map Resolved outs \<and>
           map (container_record h images) (enumerate 0 outs) = map Inr records) \<longleftrightarrow>
   map (record_for h) images = map Some records"
  (is "(\<exists>outs. ?calls outs \<and> ?recs outs) \<longleftrightarrow> ?rhs")
proof
  assume "\<exists>outs. ?calls outs \<and> ?recs outs"
  then obtain outs where calls: "?calls outs" and recs: "?recs outs" by blast
  have len1: "length outs = length images" using calls by (metis length_map)
  have len2: "length records = length outs" using recs by (metis length_map length_enumerate)
  show ?rhs
  proof (rule nth_equalityI)
    show "length (map (record_for h) images) = length (map Some records)"
      using len1 len2 by simp
  next
    fix i assume "i < length (map (record_for h) images)"
    then have i: "i < length images" by simp
    have "snd (execCommand h (inspect_argv (fst (images ! i))) False) = Resolved (outs ! i)"
      using calls i len1 by (metis nth_map)
    then obtain err status where
      run: "subprocess h (inspect_argv (fst (images ! i))) = Communicates True (outs ! i) err status"
      by (auto simp add: execCommand_Resolved_iff)
    have "container_record h images (enumerate 0 outs ! i) = Inr (records ! i)"
      using recs i len1 len2 by (metis nth_map length_enumerate)
    then have "container_record h images (i, outs ! i) = Inr (records ! i)"
      using i len1 by (simp add: nth_enumerate_eq)
    then obtain labels where "JSON_parse h (outs ! i) = Some labels" "\<not> nullish labels"
      "records ! i = JObj (compose_part labels @
          [(''name'', JStr (fst (images ! i))), (''status'', snd (images ! i))])"
      using container_record_Inr_iff[OF i] by blast
    then have "record_for h (images ! i) = Some (records ! i)"
      using run by (auto simp add: record_for_Some_iff labels_of_Some_iff)
    then show "map (record_for h) images ! i = map Some records ! i"
      using i len1 len2 by simp
  qed
next
  assume rhs: ?rhs
  define stdout_of where "stdout_of = (\<lambda>img :: string \<times> jsval. case subprocess h (inspect_argv (fst img)) of
      Communicates ok out err status \<Rightarrow> out | _ \<Rightarrow> [])"
  define outs where "outs = map stdout_of images"
  have len: "length records = length images" using rhs by (metis length_map)
  have each: "record_for h (images ! i) = Some (records ! i)" if "i < length images" for i
    using rhs that len by (metis nth_map)
  have run: "\<exists>err status labels.
      subprocess h (inspect_argv (fst (images ! i))) = Communicates True (outs ! i) err status \<and>
      JSON_parse h (outs ! i) = Some labels \<and> \<not> nullish labels \<and>
      records ! i = JObj (compose_part labels @
          [(''name'', JStr (fst (images ! i))), (''status'', snd (images ! i))])"
    if "i < length images" for i
  proof -
    from each[OF that] obtain labels out err status where
      "subprocess h (inspect_argv (fst (images ! i))) = Communicates True out err status"
      "JSON_parse h out = Some labels" "\<not> nullish labels"
      "records ! i = JObj (compose_part labels @
          [(''name'', JStr (fst (images ! i))), (''status'', snd (images ! i))])"
      by (auto simp add: record_for_Some_iff labels_of_Some_iff)
    moreover from this have "outs ! i = out" using that by (simp add: outs_def stdout_of_def)
    ultimately show ?thesis by blast
  qed
  have "?calls outs"
  proof (rule nth_equalityI)
    show "length (map (\<lambda>img. snd (execCommand h (inspect_argv (fst img)) False)) images) =
        length (map Resolved outs)" by (simp add: outs_def)
  next
    fix i assume "i < length (map (\<lambda>img. snd (execCommand h (inspect_argv (fst img)) False)) images)"
    then have i: "i < length images" by simp
    from run[OF i] have "snd (execCommand h (inspect_argv (fst (images ! i))) False) = Resolved (outs ! i)"
      by (auto simp add: execCommand_Resolved_iff)
    then show "map (\<lambda>img. snd (execCommand h (inspect_argv (fst img)) False)) images ! i =
        map Resolved outs ! i" using i by (simp add: outs_def)
  qed
  moreover have "?recs outs"
  proof (rule nth_equalityI)
    show "length (map (container_record h images) (enumerate 0 outs)) = length (map Inr records)"
      using len by (simp add: outs_def)
  next
    fix i assume "i < length (map (container_record h images) (enumerate 0 outs))"
    then have i: "i < length images" by (simp add: outs_def)
    from run[OF i] have "container_record h images (i, outs ! i) = Inr (records ! i)"
      using container_record_Inr_iff[OF i] by blast
    then show "map (container_record h images) (enumerate 0 outs) ! i = map Inr records ! i"
      using i len by (simp add: outs_def nth_enumerate_eq)
  qed
  ultimately show "\<exists>outs. ?calls outs \<and> ?recs outs" by blast
qed

lemma getContainers_listed:
  assumes "subprocess h list_all_argv = Communicates True psOut err status"
  shows "snd (getContainers h) = Resolved records \<longleftrightarrow>
         map (record_for h) (images_of psOut) = map Some records"
proof -
  let ?images = "images_of psOut"
  let ?results = "map (\<lambda>img. snd (execCommand h (inspect_argv (fst img)) False)) ?images"
  let ?moments = "map (\<lambda>img. settles_at h (inspect_argv (fst img))) ?images"
  have ps: "execCommand h list_all_argv False = ([Subprocess list_all_argv], Resolved psOut)"
    using assms by (simp add: execCommand_def)
  have zip: "map snd (zip ?moments ?results) = ?results" by simp
  have "snd (getContainers h) = Resolved records \<longleftrightarrow>
      (\<exists>outs. Promise_all (zip ?moments ?results) = Resolved outs \<and>
         map_throwing (container_record h ?images) (enumerate 0 outs) = Inr records)"
    by (auto simp add: getContainers_def ps Let_def comp_def split: promise.splits sum.splits)
  also have "\<dots> \<longleftrightarrow> (\<exists>outs. ?results = map Resolved outs \<and>
         map (container_record h ?images) (enumerate 0 outs) = map Inr records)"
    unfolding Promise_all_Resolved_iff map_throwing_Inr_iff zip ..
  also have "\<dots> \<longleftrightarrow> map (record_for h) ?images = map Some records"
    by (rule records_of_outputs)
  finally show ?thesis .
qed

lemma getContainers_Resolved:
  assumes "snd (getContainers h) = Resolved records"
  shows "\<exists>psOut err status. subprocess h list_all_argv = Communicates True psOut err status"
proof -
  obtain psOut where "snd (execCommand h list_all_argv False) = Resolved psOut"
    using assms by (auto simp add: getContainers_def Let_def split: promise.splits)
  then show ?thesis by (auto simp add: execCommand_Resolved_iff)
qed

section \<open>Lines and fields of a listing\<close>

lemma split_from_fields:
  "split_from cur sep s =
     (rev cur @ takeWhile (\<lambda>c. c \<noteq> sep) s) #
     (if sep \<in> set s then split_from [] sep (tl (dropWhile (\<lambda>c. c \<noteq> sep) s)) else [])"
  by (induction s arbitrary: cur) auto

lemma image_of_line_fields: "image_of_line line = (before_comma line, after_comma line)"
proof (cases "CHR '','' \<in> set line")
  case False
  then have "js_split CHR '','' line = [line]" by (simp add: js_split_no_sep)
  moreover have "before_comma line = line" using False by (auto simp add: before_comma_def)
  ultimately show ?thesis using False
    by (simp add: image_of_line_def after_comma_def at_index_def)
next
  case True
  let ?rest = "tl (dropWhile (\<lambda>c. c \<noteq> CHR '','') line)"
  have "js_split CHR '','' line = before_comma line # split_from [] CHR '','' ?rest"
    using True split_from_fields[of "[]" "CHR '',''" line]
    by (simp add: js_split_def before_comma_def)
  moreover obtain more where
    "split_from [] CHR '','' ?rest = takeWhile (\<lambda>c. c \<noteq> CHR '','') ?rest # more"
    using split_from_fields[of "[]" "CHR '',''" ?rest] by simp
  ultimately show ?thesis using True
    by (simp add: image_of_line_def after_comma_def at_index_def)
qed

lemma nonblank_trim: "length (trim line) \<noteq> 0 \<longleftrightarrow> nonblank line"
  by (simp add: trim_empty_iff nonblank_def)

lemma images_of_lines:
  "images_of psOut =
     map (\<lambda>line. (before_comma line, after_comma line))
       (filter nonblank (js_split CHR 0x0A psOut))"
proof -
  have "(\<lambda>line. length (trim line) \<noteq> 0) = nonblank"
    by (rule ext) (rule nonblank_trim)
  moreover have "image_of_line = (\<lambda>line. (before_comma line, after_comma line))"
    by (rule ext) (rule image_of_line_fields)
  ultimately show ?thesis unfolding images_of_def by (simp only:)
qed

lemma js_split_unlines:
  "\<forall>l\<in>set ls. CHR 0x0A \<notin> set l \<Longrightarrow> js_split CHR 0x0A (unlines ls) = ls @ [[]]"
proof (induction ls)
  case Nil
  then show ?case by (simp add: unlines_def js_split_def)
next
  case (Cons l ls)
  have "unlines (l # ls) = l @ CHR 0x0A # unlines ls" by (simp add: unlines_def)
  then show ?case using Cons by (simp add: js_split_sep)
qed

lemma takeWhile_up_to_sep:
  "sep \<notin> set n \<Longrightarrow> takeWhile (\<lambda>c. c \<noteq> sep) (n @ sep # s) = n"
  by (induction n) auto

lemma dropWhile_up_to_sep:
  "sep \<notin> set n \<Longrightarrow> dropWhile (\<lambda>c. c \<noteq> sep) (n @ sep # s) = sep # s"
  by (induction n) auto

lemma takeWhile_no_sep: "sep \<notin> set s \<Longrightarrow> takeWhile (\<lambda>c. c \<noteq> sep) s = s"
  by (induction s) auto

lemma before_after_one_comma:
  assumes "CHR '','' \<notin> set n" and "CHR '','' \<notin> set s"
  shows "before_comma (n @ '','' @ s) = n \<and> after_comma (n @ '','' @ s) = JStr s"
proof -
  have "takeWhile (\<lambda>c. c \<noteq> CHR '','') (n @ CHR '','' # s) = n"
    using assms(1) by (rule takeWhile_up_to_sep)
  moreover have "dropWhile (\<lambda>c. c \<noteq> CHR '','') (n @ CHR '','' # s) = CHR '','' # s"
    using assms(1) by (rule dropWhile_up_to_sep)
  moreover have "takeWhile (\<lambda>c. c \<noteq> CHR '','') s = s"
    using assms(2) by (rule takeWhile_no_sep)
  ultimately show ?thesis by (simp add: before_comma_def after_comma_def)
qed

text \<open>
  Claim C6. For every listing output text, \<^verbatim>\<open>getContainerCount\<close> resolves with the number
  of lines that hold a character other than white space: 0 for the empty text, and the
  number of lines for a text of non-blank lines. It creates one subprocess, the listing
  \<^verbatim>\<open>docker ps --format {{.Names}},{{.Status}}\<close> (the format of the full listing, without
  \<^verbatim>\<open>-a\<close>), and no inspect call.
\<close>

theorem getContainerCount_counts_lines:
  assumes "subprocess h list_running_argv = Communicates True psOut err status"
  shows "getContainerCount h =
           ([Subprocess [''docker'', ''ps'', ''--format'', ''{{.Names}},{{.Status}}'']],
            Resolved (length (filter nonblank (js_split CHR 0x0A psOut)))) \<and>
         (psOut = [] \<longrightarrow> snd (getContainerCount h) = Resolved 0) \<and>
         (\<forall>ls. psOut = unlines ls \<and> list_all nonblank ls \<and>
               list_all (\<lambda>l. CHR 0x0A \<notin> set l) ls \<longrightarrow>
               snd (getContainerCount h) = Resolved (length ls)) \<and>
         list_all_argv = [''docker'', ''ps'', ''-a'', ''--format'', ''{{.Names}},{{.Status}}'']"
proof -
  have count: "getContainerCount h =
      ([Subprocess list_running_argv],
       Resolved (length (filter nonblank (js_split CHR 0x0A psOut))))"
    using assms by (simp add: getContainerCount_def execCommand_def images_of_lines)
  have empty: "psOut = [] \<longrightarrow> snd (getContainerCount h) = Resolved 0"
    by (simp add: count js_split_def nonblank_def)
  have lines: "snd (getContainerCount h) = Resolved (length ls)"
    if "psOut = unlines ls \<and> list_all nonblank ls \<and> list_all (\<lambda>l. CHR 0x0A \<notin> set l) ls" for ls
  proof -
    have "js_split CHR 0x0A psOut = ls @ [[]]"
      using that js_split_unlines[of ls] by (simp add: list_all_iff)
    moreover have "filter nonblank ls = ls" using that by (simp add: list_all_iff)
    ultimately show ?thesis by (simp add: count nonblank_def)
  qed
  show ?thesis using count empty lines by (simp add: list_running_argv_def list_all_argv_def)
qed

theorem getContainerCount_counts_lines_witness:
  "getContainerCount
     (sample_host (\<lambda>p. True)
        (\<lambda>argv. Communicates True (unlines [''web,Up 2 hours'', ''   '', ''db,Exited (0) 3 days ago'']) [] 0)
        (\<lambda>s. None)) =
   ([Subprocess [''docker'', ''ps'', ''--format'', ''{{.Names}},{{.Status}}'']], Resolved 2)"
proof -
  let ?h = "sample_host (\<lambda>p. True)
        (\<lambda>argv. Communicates True (unlines [''web,Up 2 hours'', ''   '', ''db,Exited (0) 3 days ago'']) [] 0)
        (\<lambda>s. None)"
  have run: "subprocess ?h list_running_argv =
      Communicates True (unlines [''web,Up 2 hours'', ''   '', ''db,Exited (0) 3 days ago'']) [] 0"
    by (simp add: sample_host_simps)
  from getContainerCount_counts_lines[OF run, THEN conjunct1]
  show ?thesis
    by (simp add: unlines_def js_split_def nonblank_def is_white_space_def)
qed

section \<open>Compose labels\<close>

lemma record_name_status:
  "get_prop (JObj (compose_part labels @ [(''name'', n), (''status'', st)])) ''name'' = n"
  "get_prop (JObj (compose_part labels @ [(''name'', n), (''status'', st)])) ''status'' = st"
  by (simp_all add: compose_part_def)

lemma record_has_compose:
  "has_key (JObj (compose_part labels @ [(''name'', n), (''status'', st)])) ''compose'' \<longleftrightarrow>
   truthy (get_prop labels (COMPOSE_PREFIX @ ''.project''))"
  by (simp add: compose_part_def)

lemma labels_of_host_update:
  "labels_of (h\<lparr>completes_at := moments\<rparr>) name = labels_of h name"
  by (simp add: labels_of_def split: proc_outcome.split)

lemma record_for_host_update:
  "record_for (h\<lparr>completes_at := moments\<rparr>) img = record_for h img"
  by (simp add: record_for_def labels_of_host_update)

text \<open>
  Claim C9. For a listing whose only non-blank line is \<open>c,Up\<close> and an inspect output
  that parses to the label map with the project \<open>p\<close>, the service \<open>s\<close>, the config files
  \<open>f\<close> and the working directory \<open>w\<close>, \<^verbatim>\<open>getContainers\<close> resolves with exactly one
  record, which holds \<open>name\<close> \<open>c\<close>, \<open>status\<close> \<open>Up\<close> and the \<open>compose\<close> record of the four
  values (the properties of an object are listed in the order the code inserts them).
\<close>

theorem getContainers_compose_round_trip:
  assumes listing: "subprocess h list_all_argv = Communicates True psOut err status"
      and line: "filter nonblank (js_split CHR 0x0A psOut) = [''c,Up'']"
      and inspect: "subprocess h (inspect_argv ''c'') = Communicates True out err' status'"
      and parse: "JSON_parse h out = Some (JObj labels)"
      and labels: "map_of labels =
        map_of [(''com.docker.compose.project'', JStr ''p''),
                (''com.docker.compose.service'', JStr ''s''),
                (''com.docker.compose.project.config_files'', JStr ''f''),
                (''com.docker.compose.project.working_dir'', JStr ''w'')]"
  shows "snd (getContainers h) =
     Resolved [JObj [(''compose'', JObj [(''service'', JStr ''s''), (''project'', JStr ''p''),
                                        (''configFiles'', JStr ''f''), (''workingDir'', JStr ''w'')]),
                     (''name'', JStr ''c''), (''status'', JStr ''Up'')]]"
proof -
  have fields: "before_comma ''c,Up'' = ''c''" "after_comma ''c,Up'' = JStr ''Up''"
    by (simp_all add: before_comma_def after_comma_def)
  have images: "images_of psOut = [(''c'', JStr ''Up'')]"
    by (simp add: images_of_lines line fields)
  have found: "labels_of h ''c'' = Some (JObj labels)"
    using inspect parse by (simp add: labels_of_def)
  have part: "compose_part (JObj labels) =
      [(''compose'', JObj [(''service'', JStr ''s''), (''project'', JStr ''p''),
                           (''configFiles'', JStr ''f''), (''workingDir'', JStr ''w'')])]"
    by (simp add: compose_part_def COMPOSE_PREFIX_def labels)
  have "record_for h (''c'', JStr ''Up'') =
      Some (JObj [(''compose'', JObj [(''service'', JStr ''s''), (''project'', JStr ''p''),
                                      (''configFiles'', JStr ''f''), (''workingDir'', JStr ''w'')]),
                  (''name'', JStr ''c''), (''status'', JStr ''Up'')])"
    by (simp add: record_for_def found nullish_def part)
  then show ?thesis by (simp add: getContainers_listed[OF listing] images)
qed

text \<open>
  Claim C1. A container whose inspect output is the JSON text \<open>null\<close> should not make
  the listing fail. The code reads a property of the parsed value without a test for
  \<^verbatim>\<open>null\<close>: whenever the listing holds a container whose inspect output parses to
  \<^verbatim>\<open>null\<close>, \<^verbatim>\<open>getContainers\<close> never resolves with records, and when it is the only
  container the promise is rejected with a TypeError.
\<close>

theorem getContainers_null_labels:
  assumes listing: "subprocess h list_all_argv = Communicates True psOut err status"
      and line: "line \<in> set (js_split CHR 0x0A psOut)" and nonblank: "nonblank line"
      and inspect: "subprocess h (inspect_argv (before_comma line)) =
                      Communicates True out err' status'"
      and parse: "JSON_parse h out = Some JNull"
  shows "(\<forall>records. snd (getContainers h) \<noteq> Resolved records) \<and>
         (filter nonblank (js_split CHR 0x0A psOut) = [line] \<longrightarrow>
            snd (getContainers h) = Rejected TypeError)"
proof
  have null: "record_for h (before_comma line, after_comma line) = None"
    using inspect parse by (simp add: record_for_def labels_of_def nullish_def)
  show "\<forall>records. snd (getContainers h) \<noteq> Resolved records"
  proof (intro allI notI)
    fix records assume "snd (getContainers h) = Resolved records"
    then have "map (record_for h) (images_of psOut) = map Some records"
      by (simp add: getContainers_listed[OF listing])
    moreover have "(before_comma line, after_comma line) \<in> set (images_of psOut)"
      using line nonblank by (simp add: images_of_lines)
    ultimately have "record_for h (before_comma line, after_comma line) \<in> set (map Some records)"
      by (metis image_eqI set_map)
    with null show False by auto
  qed
  show "filter nonblank (js_split CHR 0x0A psOut) = [line] \<longrightarrow>
      snd (getContainers h) = Rejected TypeError"
  proof
    assume "filter nonblank (js_split CHR 0x0A psOut) = [line]"
    then have images: "images_of psOut = [(before_comma line, after_comma line)]"
      by (simp add: images_of_lines)
    have ps: "execCommand h list_all_argv False = ([Subprocess list_all_argv], Resolved psOut)"
      using listing by (simp add: execCommand_def)
    have call: "execCommand h (inspect_argv (before_comma line)) False =
        ([Subprocess (inspect_argv (before_comma line))], Resolved out)"
      using inspect by (simp add: execCommand_def)
    show "snd (getContainers h) = Rejected TypeError"
      by (simp add: getContainers_def ps images call Promise_all_def enumerate_simps
          container_record_def parse nullish_def)
  qed
qed

theorem getContainers_null_labels_witness:
  "snd (getContainers
     (sample_host (\<lambda>p. True)
        (\<lambda>argv. if argv = list_all_argv then Communicates True (unlines [''c,Up'']) [] 0
                 else Communicates True ''null'' [] 0)
        (\<lambda>s. if s = ''null'' then Some JNull else None))) = Rejected TypeError"
proof -
  let ?h = "sample_host (\<lambda>p. True)
        (\<lambda>argv. if argv = list_all_argv then Communicates True (unlines [''c,Up'']) [] 0
                 else Communicates True ''null'' [] 0)
        (\<lambda>s. if s = ''null'' then Some JNull else None)"
  have listing: "subprocess ?h list_all_argv = Communicates True (unlines [''c,Up'']) [] 0"
    by (simp add: sample_host_simps)
  have lines: "js_split CHR 0x0A (unlines [''c,Up'']) = [''c,Up'', []]"
    by (simp add: unlines_def js_split_def)
  have line: "''c,Up'' \<in> set (js_split CHR 0x0A (unlines [''c,Up'']))" by (simp add: lines)
  have nonblank: "nonblank ''c,Up''" by (simp add: nonblank_def is_white_space_def)
  have inspect: "subprocess ?h (inspect_argv (before_comma ''c,Up'')) = Communicates True ''null'' [] 0"
    by (simp add: sample_host_simps inspect_argv_def list_all_argv_def)
  have parse: "JSON_parse ?h ''null'' = Some JNull" by (simp add: sample_host_simps)
  have only: "filter nonblank (js_split CHR 0x0A (unlines [''c,Up''])) = [''c,Up'']"
    by (simp add: lines nonblank_def is_white_space_def)
  from getContainers_null_labels[OF listing line nonblank inspect parse, THEN conjunct2, THEN mp, OF only]
  show ?thesis .
qed

text \<open>
  Claim C5. Every record that \<^verbatim>\<open>getContainers\<close> resolves with has the key \<open>compose\<close> if
  and only if the parsed inspect output of its container holds a truthy value under the
  project label, which for a label that is a string means a non-empty one; a record
  without that value has no \<open>compose\<close> key at all: it is the object of \<open>name\<close> and
  \<open>status\<close> alone.
\<close>

theorem getContainers_compose_iff:
  assumes resolved: "snd (getContainers h) = Resolved records" and i: "i < length records"
  shows "\<exists>psOut err status labels.
           subprocess h list_all_argv = Communicates True psOut err status \<and>
           i < length (images_of psOut) \<and>
           labels_of h (fst (images_of psOut ! i)) = Some labels \<and>
           (has_key (records ! i) ''compose'' \<longleftrightarrow>
              truthy (get_prop labels (COMPOSE_PREFIX @ ''.project''))) \<and>
           (\<forall>v. get_prop labels (COMPOSE_PREFIX @ ''.project'') = JStr v \<longrightarrow>
              (has_key (records ! i) ''compose'' \<longleftrightarrow> v \<noteq> [])) \<and>
           (get_prop labels (COMPOSE_PREFIX @ ''.project'') = JUndefined \<longrightarrow>
              \<not> has_key (records ! i) ''compose'') \<and>
           (\<not> has_key (records ! i) ''compose'' \<longrightarrow>
              records ! i = JObj [(''name'', JStr (fst (images_of psOut ! i))),
                                  (''status'', snd (images_of psOut ! i))])"
proof -
  obtain psOut err status where
    listing: "subprocess h list_all_argv = Communicates True psOut err status"
    using getContainers_Resolved[OF resolved] by blast
  let ?images = "images_of psOut"
  have all: "map (record_for h) ?images = map Some records"
    using resolved by (simp add: getContainers_listed[OF listing])
  then have len: "length ?images = length records" by (metis length_map)
  with i have i': "i < length ?images" by simp
  have "record_for h (?images ! i) = Some (records ! i)"
    using all i i' by (metis nth_map)
  then obtain labels where labels: "labels_of h (fst (?images ! i)) = Some labels"
    and r: "records ! i = JObj (compose_part labels @
        [(''name'', JStr (fst (?images ! i))), (''status'', snd (?images ! i))])"
    by (auto simp add: record_for_Some_iff)
  have key: "has_key (records ! i) ''compose'' \<longleftrightarrow>
      truthy (get_prop labels (COMPOSE_PREFIX @ ''.project''))"
    unfolding r by (rule record_has_compose)
  have str: "\<forall>v. get_prop labels (COMPOSE_PREFIX @ ''.project'') = JStr v \<longrightarrow>
      (has_key (records ! i) ''compose'' \<longleftrightarrow> v \<noteq> [])"
    by (simp add: key)
  have undef: "get_prop labels (COMPOSE_PREFIX @ ''.project'') = JUndefined \<longrightarrow>
      \<not> has_key (records ! i) ''compose''"
    by (simp add: key)
  have absent: "\<not> has_key (records ! i) ''compose'' \<longrightarrow>
      records ! i = JObj [(''name'', JStr (fst (?images ! i))), (''status'', snd (?images ! i))]"
    using r by (simp add: key compose_part_def)
  from listing i' labels key str undef absent show ?thesis
    by (intro exI conjI)
qed

section \<open>Records by line\<close>

text \<open>
  Claim C4, as amended. When the listing resolves and the inspect call of every
  non-blank line resolves with output that parses to a value other than \<^verbatim>\<open>null\<close>,
  \<^verbatim>\<open>getContainers\<close> resolves with one record per line that holds a character other than
  white space, in the order of the lines. The \<open>name\<close> of a record is the text before the
  first comma of its line and its \<open>status\<close> the text between the first comma and the
  second (\<^verbatim>\<open>undefined\<close> when the line has no comma); for a line with exactly one comma
  these are the text before and after the comma. Each record is the one built from the
  inspect output of its own line, whatever the moments at which the children complete.
\<close>

theorem getContainers_records_by_line:
  assumes listing: "subprocess h list_all_argv = Communicates True psOut err status"
      and inspects: "\<forall>line\<in>set (filter nonblank (js_split CHR 0x0A psOut)).
                       \<exists>labels. labels_of h (before_comma line) = Some labels \<and> \<not> nullish labels"
  shows "\<exists>records.
     snd (getContainers h) = Resolved records \<and>
     map (\<lambda>r. (get_prop r ''name'', get_prop r ''status'')) records =
       map (\<lambda>line. (JStr (before_comma line), after_comma line))
         (filter nonblank (js_split CHR 0x0A psOut)) \<and>
     map Some records =
       map (\<lambda>line. record_for h (before_comma line, after_comma line))
         (filter nonblank (js_split CHR 0x0A psOut)) \<and>
     (\<forall>moments. snd (getContainers (h\<lparr>completes_at := moments\<rparr>)) = Resolved records) \<and>
     (\<forall>n s. CHR '','' \<notin> set n \<and> CHR '','' \<notin> set s \<longrightarrow>
        before_comma (n @ '','' @ s) = n \<and> after_comma (n @ '','' @ s) = JStr s)"
proof -
  let ?lines = "filter nonblank (js_split CHR 0x0A psOut)"
  let ?rec = "\<lambda>line. record_for h (before_comma line, after_comma line)"
  define pick where "pick = (\<lambda>line. the (?rec line))"
  define records where "records = map pick ?lines"
  have some: "?rec line = Some (pick line) \<and>
      (get_prop (pick line) ''name'', get_prop (pick line) ''status'') =
      (JStr (before_comma line), after_comma line)" if mem: "line \<in> set ?lines" for line
  proof -
    obtain labels where "labels_of h (before_comma line) = Some labels" "\<not> nullish labels"
      using bspec[OF inspects mem] by blast
    then have "?rec line = Some (JObj (compose_part labels @
        [(''name'', JStr (before_comma line)), (''status'', after_comma line)]))"
      by (simp add: record_for_def)
    moreover from this have "pick line = JObj (compose_part labels @
        [(''name'', JStr (before_comma line)), (''status'', after_comma line)])"
      by (simp add: pick_def)
    ultimately show ?thesis by (simp only: record_name_status)
  qed
  have joined: "map Some records = map ?rec ?lines"
    unfolding records_def map_map by (rule map_cong) (simp_all add: some)
  have all: "map (record_for h) (images_of psOut) = map Some records"
    unfolding images_of_lines map_map joined by (simp add: comp_def)
  have resolved: "snd (getContainers h) = Resolved records"
    by (simp only: getContainers_listed[OF listing] all)
  have names: "map (\<lambda>r. (get_prop r ''name'', get_prop r ''status'')) records =
      map (\<lambda>line. (JStr (before_comma line), after_comma line)) ?lines"
    unfolding records_def map_map by (rule map_cong) (simp_all add: some)
  have moments: "snd (getContainers (h\<lparr>completes_at := moments\<rparr>)) = Resolved records"
    for moments
  proof -
    have "subprocess (h\<lparr>completes_at := moments\<rparr>) list_all_argv =
        Communicates True psOut err status" using listing by simp
    moreover have "record_for (h\<lparr>completes_at := moments\<rparr>) = record_for h"
      by (rule ext) (rule record_for_host_update)
    ultimately show ?thesis using all by (simp only: getContainers_listed)
  qed
  have commas: "\<forall>n s. CHR '','' \<notin> set n \<and> CHR '','' \<notin> set s \<longrightarrow>
        before_comma (n @ '','' @ s) = n \<and> after_comma (n @ '','' @ s) = JStr s"
    using before_after_one_comma by blast
  have every: "\<forall>moments. snd (getContainers (h\<lparr>completes_at := moments\<rparr>)) = Resolved records"
    using moments by blast
  from resolved names joined every commas show ?thesis
    by (intro exI conjI)
qed

section \<open>The listing on example hosts\<close>

lemma listing_host_listing:
  "subprocess (listing_host ls) list_all_argv = Communicates True (unlines ls) [] 0"
  by (simp add: listing_host_def sample_host_simps)

lemma listing_host_inspect_c:
  "subprocess (listing_host ls) (inspect_argv ''c'') = Communicates True compose_labels_text [] 0"
  by (simp add: listing_host_def sample_host_simps inspect_argv_def list_all_argv_def
      list_running_argv_def)

lemma listing_host_inspect_other:
  "name \<noteq> ''c'' \<Longrightarrow>
   subprocess (listing_host ls) (inspect_argv name) = Communicates True ''{}'' [] 0"
  by (simp add: listing_host_def sample_host_simps inspect_argv_def list_all_argv_def
      list_running_argv_def)

lemma listing_host_parse:
  "JSON_parse (listing_host ls) compose_labels_text = Some (JObj compose_labels)"
  "JSON_parse (listing_host ls) ''{}'' = Some (JObj [])"
  by (simp_all add: listing_host_def sample_host_simps compose_labels_text_def quoted_def)

lemma listing_host_labels:
  "labels_of (listing_host ls) ''c'' = Some (JObj compose_labels)"
  "name \<noteq> ''c'' \<Longrightarrow> labels_of (listing_host ls) name = Some (JObj [])"
  by (simp_all add: labels_of_def listing_host_inspect_c listing_host_inspect_other
      listing_host_parse)

lemma lines_c: "filter nonblank (js_split CHR 0x0A (unlines [''c,Up''])) = [''c,Up'']"
  by (simp add: unlines_def js_split_def nonblank_def is_white_space_def)

theorem getContainers_compose_round_trip_witness:
  "snd (getContainers (listing_host [''c,Up''])) =
     Resolved [JObj [(''compose'', JObj [(''service'', JStr ''s''), (''project'', JStr ''p''),
                                        (''configFiles'', JStr ''f''), (''workingDir'', JStr ''w'')]),
                     (''name'', JStr ''c''), (''status'', JStr ''Up'')]]"
proof -
  have labels: "map_of compose_labels =
        map_of [(''com.docker.compose.project'', JStr ''p''),
                (''com.docker.compose.service'', JStr ''s''),
                (''com.docker.compose.project.config_files'', JStr ''f''),
                (''com.docker.compose.project.working_dir'', JStr ''w'')]"
    by (simp only: compose_labels_def)
  show ?thesis
    by (rule getContainers_compose_round_trip
        [OF listing_host_listing lines_c listing_host_inspect_c listing_host_parse(1) labels])
qed

lemma lines_c_d:
  "filter nonblank (js_split CHR 0x0A (unlines [''c,Up'', ''   '', ''d,Exited (0) 3 days ago''])) =
     [''c,Up'', ''d,Exited (0) 3 days ago'']"
  by (simp add: unlines_def js_split_def nonblank_def is_white_space_def)

lemma fields_c_d:
  "before_comma ''c,Up'' = ''c''" "after_comma ''c,Up'' = JStr ''Up''"
  "before_comma ''d,Exited (0) 3 days ago'' = ''d''"
  "after_comma ''d,Exited (0) 3 days ago'' = JStr ''Exited (0) 3 days ago''"
  by (simp_all add: before_comma_def after_comma_def)

lemma compose_part_examples:
  "compose_part (JObj compose_labels) =
     [(''compose'', JObj [(''service'', JStr ''s''), (''project'', JStr ''p''),
                          (''configFiles'', JStr ''f''), (''workingDir'', JStr ''w'')])]"
  "compose_part (JObj []) = []"
  by (simp_all add: compose_part_def COMPOSE_PREFIX_def compose_labels_def)

lemma listing_host_c_d:
  "snd (getContainers (listing_host [''c,Up'', ''   '', ''d,Exited (0) 3 days ago''])) =
     Resolved
       [JObj [(''compose'', JObj [(''service'', JStr ''s''), (''project'', JStr ''p''),
                                 (''configFiles'', JStr ''f''), (''workingDir'', JStr ''w'')]),
              (''name'', JStr ''c''), (''status'', JStr ''Up'')],
        JObj [(''name'', JStr ''d''), (''status'', JStr ''Exited (0) 3 days ago'')]]"
  by (simp add: getContainers_listed[OF listing_host_listing] images_of_lines lines_c_d
      fields_c_d record_for_def listing_host_labels nullish_def compose_part_examples)

theorem getContainers_compose_iff_witness:
  "snd (getContainers (listing_host [''c,Up'', ''   '', ''d,Exited (0) 3 days ago''])) =
     Resolved
       [JObj [(''compose'', JObj [(''service'', JStr ''s''), (''project'', JStr ''p''),
                                 (''configFiles'', JStr ''f''), (''workingDir'', JStr ''w'')]),
              (''name'', JStr ''c''), (''status'', JStr ''Up'')],
        JObj [(''name'', JStr ''d''), (''status'', JStr ''Exited (0) 3 days ago'')]] \<and>
   labels_of (listing_host [''c,Up'', ''   '', ''d,Exited (0) 3 days ago'']) ''c'' =
     Some (JObj compose_labels) \<and>
   has_key (JObj [(''compose'', JObj [(''service'', JStr ''s''), (''project'', JStr ''p''),
                                 (''configFiles'', JStr ''f''), (''workingDir'', JStr ''w'')]),
              (''name'', JStr ''c''), (''status'', JStr ''Up'')]) ''compose'' \<and>
   labels_of (listing_host [''c,Up'', ''   '', ''d,Exited (0) 3 days ago'']) ''d'' = Some (JObj []) \<and>
   \<not> has_key (JObj [(''name'', JStr ''d''), (''status'', JStr ''Exited (0) 3 days ago'')])
       ''compose''"
proof -
  let ?h = "listing_host [''c,Up'', ''   '', ''d,Exited (0) 3 days ago'']"
  let ?records = "[JObj [(''compose'', JObj [(''service'', JStr ''s''), (''project'', JStr ''p''),
                                 (''configFiles'', JStr ''f''), (''workingDir'', JStr ''w'')]),
              (''name'', JStr ''c''), (''status'', JStr ''Up'')],
        JObj [(''name'', JStr ''d''), (''status'', JStr ''Exited (0) 3 days ago'')]]"
  have resolved: "snd (getContainers ?h) = Resolved ?records" by (rule listing_host_c_d)
  have name: "fst (images_of psOut ! 0) = ''c''" "fst (images_of psOut ! 1) = ''d''"
    if "subprocess ?h list_all_argv = Communicates True psOut err status" for psOut err status
  proof -
    from that have "psOut = unlines [''c,Up'', ''   '', ''d,Exited (0) 3 days ago'']"
      by (simp add: listing_host_listing)
    then show "fst (images_of psOut ! 0) = ''c''" "fst (images_of psOut ! 1) = ''d''"
      by (simp_all add: images_of_lines lines_c_d fields_c_d)
  qed
  have i0: "0 < length ?records" by simp
  from getContainers_compose_iff[OF resolved i0] obtain psOut err status labels where
    l0: "subprocess ?h list_all_argv = Communicates True psOut err status" and
    lab0: "labels_of ?h (fst (images_of psOut ! 0)) = Some labels" and
    key0: "has_key (?records ! 0) ''compose'' \<longleftrightarrow>
            truthy (get_prop labels (COMPOSE_PREFIX @ ''.project''))"
    by (elim exE conjE)
  have c: "labels_of ?h ''c'' = Some labels" using lab0 unfolding name(1)[OF l0] .
  then have "labels = JObj compose_labels" by (simp add: listing_host_labels)
  with key0 have present: "has_key (?records ! 0) ''compose''"
    by (simp add: COMPOSE_PREFIX_def compose_labels_def)
  have i1: "1 < length ?records" by simp
  from getContainers_compose_iff[OF resolved i1] obtain psOut' err' status' labels' where
    l1: "subprocess ?h list_all_argv = Communicates True psOut' err' status'" and
    lab1: "labels_of ?h (fst (images_of psOut' ! 1)) = Some labels'" and
    key1: "has_key (?records ! 1) ''compose'' \<longleftrightarrow>
            truthy (get_prop labels' (COMPOSE_PREFIX @ ''.project''))"
    by (elim exE conjE)
  have d: "labels_of ?h ''d'' = Some labels'" using lab1 unfolding name(2)[OF l1] .
  then have "labels' = JObj []" by (simp add: listing_host_labels)
  with key1 have absent: "\<not> has_key (?records ! 1) ''compose''" by simp
  from resolved present absent show ?thesis by (simp add: listing_host_labels)
qed

theorem getContainers_records_by_line_witness:
  "\<exists>records.
     snd (getContainers (listing_host [''c,Up'', ''   '', ''d,Exited (0) 3 days ago''])) =
       Resolved records \<and>
     map (\<lambda>r. (get_prop r ''name'', get_prop r ''status'')) records =
       [(JStr ''c'', JStr ''Up''), (JStr ''d'', JStr ''Exited (0) 3 days ago'')]"
proof -
  let ?h = "listing_host [''c,Up'', ''   '', ''d,Exited (0) 3 days ago'']"
  have inspects:
    "\<forall>line\<in>set (filter nonblank
        (js_split CHR 0x0A (unlines [''c,Up'', ''   '', ''d,Exited (0) 3 days ago'']))).
       \<exists>labels. labels_of ?h (before_comma line) = Some labels \<and> \<not> nullish labels"
    by (simp add: lines_c_d fields_c_d listing_host_labels nullish_def)
  from getContainers_records_by_line[OF listing_host_listing inspects]
  obtain records where
    "snd (getContainers ?h) = Resolved records" and
    "map (\<lambda>r. (get_prop r ''name'', get_prop r ''status'')) records =
       map (\<lambda>line. (JStr (before_comma line), after_comma line))
         (filter nonblank
           (js_split CHR 0x0A (unlines [''c,Up'', ''   '', ''d,Exited (0) 3 days ago''])))"
    by (elim exE conjE)
  then show ?thesis by (simp add: lines_c_d fields_c_d)
qed

lemma lines_a_b_c: "filter nonblank (js_split CHR 0x0A (unlines [''a,b,c''])) = [''a,b,c'']"
  by (simp add: unlines_def js_split_def nonblank_def is_white_space_def)

text \<open>
  Claim C4 as stated fails on a line with two commas: for the line \<open>a,b,c\<close> no comma of
  the line has the record's \<open>name\<close> before it and the record's \<open>status\<close> after it.
\<close>

theorem getContainers_two_commas:
  "\<exists>r. snd (getContainers (listing_host [''a,b,c''])) = Resolved [r] \<and>
       \<not> (\<exists>n s. ''a,b,c'' = n @ '','' @ s \<and>
                 get_prop r ''name'' = JStr n \<and> get_prop r ''status'' = JStr s)"
proof -
  have fields: "before_comma ''a,b,c'' = ''a''" "after_comma ''a,b,c'' = JStr ''b''"
    by (simp_all add: before_comma_def after_comma_def)
  have "snd (getContainers (listing_host [''a,b,c''])) =
      Resolved [JObj [(''name'', JStr ''a''), (''status'', JStr ''b'')]]"
    by (simp add: getContainers_listed[OF listing_host_listing] images_of_lines lines_a_b_c
        fields record_for_def listing_host_labels nullish_def compose_part_examples)
  moreover have "\<not> (\<exists>n s. ''a,b,c'' = n @ '','' @ s \<and>
      get_prop (JObj [(''name'', JStr ''a''), (''status'', JStr ''b'')]) ''name'' = JStr n \<and>
      get_prop (JObj [(''name'', JStr ''a''), (''status'', JStr ''b'')]) ''status'' = JStr s)"
    by auto
  ultimately show ?thesis by blast
qed

end
